theory Spec2Isabelle
  imports Main "HOL-Library.Word"
begin

section \<open>Bytes, strings and \<^verbatim>\<open>struct.pack\<close>\<close>

text \<open>
  A Python \<^verbatim>\<open>bytes\<close>/\<^verbatim>\<open>bytearray\<close> value is a list of 8-bit words. A Python
  \<^verbatim>\<open>str\<close> is a list of Unicode code points, so that \<^verbatim>\<open>len(name)\<close> counts characters
  while \<^verbatim>\<open>name.encode()\<close> (UTF-8, strict) may give more bytes than characters.
  Python integers are unbounded and are modelled as \<open>int\<close>.
\<close>

type_synonym byte = "8 word"
type_synonym bytes = "byte list"
type_synonym str = "nat list"

datatype error = StructError | UnicodeEncodeError | KeyError

text \<open>\<^verbatim>\<open>str.encode()\<close>: UTF-8; a surrogate code point raises \<^verbatim>\<open>UnicodeEncodeError\<close>.\<close>

definition utf8_char :: "nat \<Rightarrow> error + bytes" where
  "utf8_char c =
     (if c < 0x80 then Inr [word_of_nat c]
      else if c < 0x800 then
        Inr [word_of_nat (0xC0 + c div 64), word_of_nat (0x80 + c mod 64)]
      else if 0xD800 \<le> c \<and> c \<le> 0xDFFF then Inl UnicodeEncodeError
      else if c < 0x10000 then
        Inr [word_of_nat (0xE0 + c div 4096), word_of_nat (0x80 + (c div 64) mod 64),
             word_of_nat (0x80 + c mod 64)]
      else if c < 0x110000 then
        Inr [word_of_nat (0xF0 + c div 262144), word_of_nat (0x80 + (c div 4096) mod 64),
             word_of_nat (0x80 + (c div 64) mod 64), word_of_nat (0x80 + c mod 64)]
      else Inl UnicodeEncodeError)"

fun encode :: "str \<Rightarrow> error + bytes" where
  "encode [] = Inr []"
| "encode (c # cs) =
     (case utf8_char c of
        Inl e \<Rightarrow> Inl e
      | Inr b \<Rightarrow> (case encode cs of Inl e \<Rightarrow> Inl e | Inr bs \<Rightarrow> Inr (b @ bs)))"

text \<open>\<^verbatim>\<open>b.ljust(n, fill)\<close>\<close>

definition ljust :: "bytes \<Rightarrow> nat \<Rightarrow> byte \<Rightarrow> bytes" where
  "ljust b n fill = b @ replicate (n - length b) fill"

text \<open>
  \<^verbatim>\<open>result[a:b] = ys\<close> on a bytearray, for non-negative bounds: both bounds are clipped
  to the length, an empty or inverted range inserts at \<open>a\<close>.
\<close>

definition slice_assign :: "bytes \<Rightarrow> nat \<Rightarrow> nat \<Rightarrow> bytes \<Rightarrow> bytes" where
  "slice_assign xs a b ys =
     (let a' = min a (length xs); b' = max a' (min b (length xs))
      in take a' xs @ ys @ drop b' xs)"

text \<open>\<^verbatim>\<open>xs[a:b]\<close>, for non-negative bounds.\<close>

definition slice :: "bytes \<Rightarrow> nat \<Rightarrow> nat \<Rightarrow> bytes" where
  "slice xs a b = take (b - a) (drop a xs)"

text \<open>
  Integers are written in the host's byte order; the model fixes a little-endian host
  (the x86-64 and x86 machines the generator targets). \<open>le_bytes k n\<close> is the \<open>k\<close>
  low-order bytes of \<open>n\<close>, least significant first; \<open>le_nat\<close> reads such a field back.
\<close>

fun le_bytes :: "nat \<Rightarrow> nat \<Rightarrow> bytes" where
  "le_bytes 0 n = []"
| "le_bytes (Suc k) n = word_of_nat n # le_bytes k (n div 256)"

fun le_nat :: "bytes \<Rightarrow> nat" where
  "le_nat [] = 0"
| "le_nat (b # bs) = unat b + 256 * le_nat bs"

text \<open>
  \<^verbatim>\<open>struct.pack(fmt, *args)\<close> in native mode, for the format characters the program
  uses: \<^verbatim>\<open>Ns\<close> (a byte string cut or zero-padded to N bytes), \<^verbatim>\<open>I\<close> (unsigned, 4 bytes),
  \<^verbatim>\<open>H\<close> (unsigned, 2 bytes) and \<^verbatim>\<open>B\<close> (unsigned, 1 byte). Native mode aligns every item
  to its own size by zero bytes between items (none at the end), and an integer outside
  the item's range raises \<^verbatim>\<open>struct.error\<close>.
\<close>

datatype fmt = Fs nat | FI | FH | FB

datatype arg = ABytes bytes | AInt int

fun fmt_size :: "fmt \<Rightarrow> nat" where
  "fmt_size (Fs n) = n"
| "fmt_size FI = 4"
| "fmt_size FH = 2"
| "fmt_size FB = 1"

fun fmt_align :: "fmt \<Rightarrow> nat" where
  "fmt_align (Fs n) = 1"
| "fmt_align FI = 4"
| "fmt_align FH = 2"
| "fmt_align FB = 1"

fun pack_item :: "fmt \<Rightarrow> arg \<Rightarrow> error + bytes" where
  "pack_item (Fs n) (ABytes b) = Inr (take n b @ replicate (n - length b) 0)"
| "pack_item (Fs n) (AInt v) = Inl StructError"
| "pack_item f (ABytes b) = Inl StructError"
| "pack_item f (AInt v) =
     (if 0 \<le> v \<and> v < 2 ^ (8 * fmt_size f) then Inr (le_bytes (fmt_size f) (nat v))
      else Inl StructError)"

fun struct_pack_from :: "nat \<Rightarrow> fmt list \<Rightarrow> arg list \<Rightarrow> error + bytes" where
  "struct_pack_from off [] [] = Inr []"
| "struct_pack_from off (f # fs) (a # as) =
     (let pad = (fmt_align f - off mod fmt_align f) mod fmt_align f in
      case pack_item f a of
        Inl e \<Rightarrow> Inl e
      | Inr b \<Rightarrow>
          (case struct_pack_from (off + pad + fmt_size f) fs as of
             Inl e \<Rightarrow> Inl e
           | Inr r \<Rightarrow> Inr (replicate pad 0 @ b @ r)))"
| "struct_pack_from off fs as = Inl StructError"

definition struct_pack :: "fmt list \<Rightarrow> arg list \<Rightarrow> error + bytes" where
  "struct_pack fs as = struct_pack_from 0 fs as"

section \<open>The data model\<close>

text \<open>
  The classes of \<^verbatim>\<open>pygen.py\<close> as records. A symbol's \<^verbatim>\<open>generator\<close> attribute is the
  generator that created it; the model passes that generator's state to
  \<open>COFFSymbol_pack\<close> instead of storing a reference.
\<close>

record COFFSymbol =
  sym_name :: str
  sym_value :: int
  sym_section :: int
  sym_type :: int
  sym_storage :: int

record COFFRelocation =
  rel_VirtualAddress :: int
  rel_SymbolTableIndex :: int
  rel_Type :: int

record COFFSection =
  sec_name :: str
  sec_relocations :: "COFFRelocation list"
  sec_VirtualAddress :: int
  sec_characteristics :: int
  sec_data :: bytes

record COFFHeader =
  Machine :: int
  TimeDateStamp :: int
  NumberOfSections :: int
  PointerToSymbolTable :: int
  NumberOfSymbols :: int
  SizeOfOptionalHeader :: int
  Characteristics :: int

record COFFGenerator =
  is64bit :: bool
  symbols :: "COFFSymbol list"
  sections :: "COFFSection list"
  strings :: bytes
  header :: COFFHeader

section \<open>Sections, relocations and the file header\<close>

definition COFFSection_init :: "str \<Rightarrow> int \<Rightarrow> int \<Rightarrow> COFFSection" where
  "COFFSection_init name characteristics VA =
     \<lparr>sec_name = name, sec_relocations = [], sec_VirtualAddress = VA,
      sec_characteristics = characteristics, sec_data = []\<rparr>"

definition COFFSection_emit :: "COFFSection \<Rightarrow> bytes \<Rightarrow> COFFSection \<times> nat" where
  "COFFSection_emit s b = (s\<lparr>sec_data := sec_data s @ b\<rparr>, length (sec_data s))"

definition COFFSection_reloc :: "COFFSection \<Rightarrow> int \<Rightarrow> int \<Rightarrow> int \<Rightarrow> COFFSection" where
  "COFFSection_reloc s offset symbol type =
     s\<lparr>sec_relocations := sec_relocations s @
          [\<lparr>rel_VirtualAddress = offset, rel_SymbolTableIndex = symbol, rel_Type = type\<rparr>]\<rparr>"

definition COFFSection_pack :: "COFFSection \<Rightarrow> error + bytes" where
  "COFFSection_pack s =
     (case encode (take 8 (sec_name s)) of
        Inl e \<Rightarrow> Inl e
      | Inr enc \<Rightarrow>
          struct_pack [Fs 8, FI, FI, FI, FI, FI, FH, FH, FH, FI]
            [ABytes (ljust enc 8 0),
             AInt (int (length (sec_data s))), AInt (sec_VirtualAddress s),
             AInt (int (length (sec_data s))), AInt 0,
             AInt 0, AInt 0,
             AInt 0, AInt (int (length (sec_relocations s))),
             AInt (sec_characteristics s)])"

definition COFFRelocation_pack :: "COFFRelocation \<Rightarrow> error + bytes" where
  "COFFRelocation_pack r =
     struct_pack [FI, FI, FH]
       [AInt (rel_VirtualAddress r), AInt (rel_SymbolTableIndex r), AInt (rel_Type r)]"

text \<open>
  The clock, \<^verbatim>\<open>int(datetime.now().timestamp())\<close>, is an input: \<open>now\<close>.
\<close>

definition COFFHeader_init :: "int \<Rightarrow> COFFHeader" where
  "COFFHeader_init now =
     \<lparr>Machine = 0, TimeDateStamp = now, NumberOfSections = 0, PointerToSymbolTable = 0,
      NumberOfSymbols = 0, SizeOfOptionalHeader = 0, Characteristics = 0\<rparr>"

definition COFFHeader_pack :: "COFFHeader \<Rightarrow> int \<Rightarrow> error + (COFFHeader \<times> bytes)" where
  "COFFHeader_pack h now =
     (let h' = h\<lparr>TimeDateStamp := now\<rparr> in
      case struct_pack [FH, FH, FI, FI, FI, FH, FH]
             [AInt (Machine h'), AInt (NumberOfSections h'), AInt (TimeDateStamp h'),
              AInt (PointerToSymbolTable h'), AInt (NumberOfSymbols h'),
              AInt (SizeOfOptionalHeader h'), AInt (Characteristics h')] of
        Inl e \<Rightarrow> Inl e
      | Inr b \<Rightarrow> Inr (h', b))"

section \<open>The generator\<close>

definition COFFGenerator_init :: "bool \<Rightarrow> int \<Rightarrow> COFFGenerator" where
  "COFFGenerator_init is64 now =
     \<lparr>is64bit = is64, symbols = [], sections = [], strings = [4, 0, 0, 0],
      header = (COFFHeader_init now)\<lparr>Machine := (if is64 then 0x8664 else 0x014C)\<rparr>\<rparr>"

definition COFFGenerator_section ::
  "COFFGenerator \<Rightarrow> str \<Rightarrow> int \<Rightarrow> COFFGenerator \<times> COFFSection" where
  "COFFGenerator_section g name characteristics =
     (let section = COFFSection_init name characteristics 0 in
      (g\<lparr>sections := sections g @ [section],
         header := (header g)\<lparr>NumberOfSections := NumberOfSections (header g) + 1\<rparr>\<rparr>,
       section))"

definition COFFGenerator_symbol ::
  "COFFGenerator \<Rightarrow> str \<Rightarrow> int \<Rightarrow> int \<Rightarrow> int \<Rightarrow> int \<Rightarrow> COFFGenerator \<times> COFFSymbol" where
  "COFFGenerator_symbol g name val section type storage =
     (let sym = \<lparr>sym_name = name, sym_value = val, sym_section = section,
                 sym_type = type, sym_storage = storage\<rparr> in
      (g\<lparr>symbols := symbols g @ [sym],
         header := (header g)\<lparr>NumberOfSymbols := NumberOfSymbols (header g) + 1\<rparr>\<rparr>,
       sym))"

definition COFFGenerator_string :: "COFFGenerator \<Rightarrow> str \<Rightarrow> error + (COFFGenerator \<times> nat)" where
  "COFFGenerator_string g s =
     (let offset = length (strings g) in
      case encode s of
        Inl e \<Rightarrow> Inl e
      | Inr enc \<Rightarrow>
          (let strs = strings g @ enc @ [0] in
           case struct_pack [FI] [AInt (int (length strs))] of
             Inl e \<Rightarrow> Inl e
           | Inr p \<Rightarrow> Inr (g\<lparr>strings := slice_assign strs 0 4 p\<rparr>, offset)))"

text \<open>
  \<^verbatim>\<open>COFFSymbol.pack\<close>: a name of more than 8 characters is appended to the generator's
  string table by this call, so packing returns the generator as well.
\<close>

definition COFFSymbol_pack :: "COFFGenerator \<Rightarrow> COFFSymbol \<Rightarrow> error + (COFFGenerator \<times> bytes)" where
  "COFFSymbol_pack g s =
     (case (if length (sym_name s) \<le> 8 then
              (case encode (sym_name s) of
                 Inl e \<Rightarrow> Inl e
               | Inr enc \<Rightarrow> Inr (g, ljust enc 8 0))
            else
              (case COFFGenerator_string g (sym_name s) of
                 Inl e \<Rightarrow> Inl e
               | Inr (g', off) \<Rightarrow>
                   (case struct_pack [FI, FI] [AInt 0, AInt (int off)] of
                      Inl e \<Rightarrow> Inl e
                    | Inr nb \<Rightarrow> Inr (g', nb)))) of
        Inl e \<Rightarrow> Inl e
      | Inr (g', nameBytes) \<Rightarrow>
          (case struct_pack [Fs 8, FI, FH, FH, FB, FB]
                  [ABytes nameBytes, AInt (sym_value s), AInt (sym_section s),
                   AInt (sym_type s), AInt (sym_storage s), AInt 0] of
             Inl e \<Rightarrow> Inl e
           | Inr r \<Rightarrow> Inr (g', r)))"

subsection \<open>The loops of \<^verbatim>\<open>emit\<close>\<close>

text \<open>First loop: the section headers; \<open>hs\<close> is the dictionary \<^verbatim>\<open>sectionHeaders\<close>.\<close>

fun emit_headers ::
  "COFFSection list \<Rightarrow> bytes \<Rightarrow> (str \<rightharpoonup> nat) \<Rightarrow> error + (bytes \<times> (str \<rightharpoonup> nat))" where
  "emit_headers [] result hs = Inr (result, hs)"
| "emit_headers (s # ss) result hs =
     (case COFFSection_pack s of
        Inl e \<Rightarrow> Inl e
      | Inr b \<Rightarrow> emit_headers ss (result @ b) (hs(sec_name s \<mapsto> length result)))"

text \<open>Second loop: patch the data pointer, append the data.\<close>

fun emit_data :: "COFFSection list \<Rightarrow> (str \<rightharpoonup> nat) \<Rightarrow> bytes \<Rightarrow> error + bytes" where
  "emit_data [] hs result = Inr result"
| "emit_data (s # ss) hs result =
     (case hs (sec_name s) of
        None \<Rightarrow> Inl KeyError
      | Some h \<Rightarrow>
          (case struct_pack [FI] [AInt (int (length result))] of
             Inl e \<Rightarrow> Inl e
           | Inr p \<Rightarrow> emit_data ss hs (slice_assign result (h + 20) (h + 24) p @ sec_data s)))"

text \<open>Third loop: patch the relocation pointer, append the relocations.\<close>

fun emit_relocs_of :: "COFFRelocation list \<Rightarrow> bytes \<Rightarrow> error + bytes" where
  "emit_relocs_of [] result = Inr result"
| "emit_relocs_of (r # rs) result =
     (case COFFRelocation_pack r of
        Inl e \<Rightarrow> Inl e
      | Inr b \<Rightarrow> emit_relocs_of rs (result @ b))"

fun emit_relocs :: "COFFSection list \<Rightarrow> (str \<rightharpoonup> nat) \<Rightarrow> bytes \<Rightarrow> error + bytes" where
  "emit_relocs [] hs result = Inr result"
| "emit_relocs (s # ss) hs result =
     (if length (sec_relocations s) > 0 then
        (case hs (sec_name s) of
           None \<Rightarrow> Inl KeyError
         | Some h \<Rightarrow>
             (case struct_pack [FH] [AInt (int (length result))] of
                Inl e \<Rightarrow> Inl e
              | Inr p \<Rightarrow>
                  (case emit_relocs_of (sec_relocations s)
                          (slice_assign result (h + 24) (h + 26) p) of
                     Inl e \<Rightarrow> Inl e
                   | Inr result' \<Rightarrow> emit_relocs ss hs result')))
      else emit_relocs ss hs result)"

text \<open>Fourth loop: the symbols; packing threads the generator (its string table).\<close>

fun emit_symbols ::
  "COFFSymbol list \<Rightarrow> COFFGenerator \<Rightarrow> bytes \<Rightarrow> error + (COFFGenerator \<times> bytes)" where
  "emit_symbols [] g result = Inr (g, result)"
| "emit_symbols (s # ss) g result =
     (case COFFSymbol_pack g s of
        Inl e \<Rightarrow> Inl e
      | Inr (g', b) \<Rightarrow> emit_symbols ss g' (result @ b))"

definition COFFGenerator_emit :: "COFFGenerator \<Rightarrow> int \<Rightarrow> error + (COFFGenerator \<times> bytes)" where
  "COFFGenerator_emit g now =
     (case emit_headers (sections g) (replicate 20 0) Map.empty of
        Inl e \<Rightarrow> Inl e
      | Inr (r1, hs) \<Rightarrow>
     (case emit_data (sections g) hs r1 of
        Inl e \<Rightarrow> Inl e
      | Inr r2 \<Rightarrow>
     (case emit_relocs (sections g) hs r2 of
        Inl e \<Rightarrow> Inl e
      | Inr r3 \<Rightarrow>
     (let g1 = g\<lparr>header := (header g)\<lparr>PointerToSymbolTable := int (length r3)\<rparr>\<rparr> in
      case emit_symbols (symbols g1) g1 r3 of
        Inl e \<Rightarrow> Inl e
      | Inr (g2, r4) \<Rightarrow>
     (let r5 = r4 @ strings g2 in
      case COFFHeader_pack (header g2) now of
        Inl e \<Rightarrow> Inl e
      | Inr (h', hb) \<Rightarrow> Inr (g2\<lparr>header := h'\<rparr>, slice_assign r5 0 20 hb))))))"

section \<open>Operation sequences\<close>

text \<open>
  The calls a client can make on a generator and on the sections it obtained from it.
  A section object is named by its position in \<open>sections\<close>; a position that names no
  section stands for no call. A call that raises ends the run.
\<close>

datatype op =
    OpSection str int
  | OpSymbol str int int int int
  | OpString str
  | OpEmit int
  | OpSectionEmit nat bytes
  | OpSectionReloc nat int int int

fun apply_op :: "COFFGenerator \<Rightarrow> op \<Rightarrow> error + COFFGenerator" where
  "apply_op g (OpSection name ch) = Inr (fst (COFFGenerator_section g name ch))"
| "apply_op g (OpSymbol name v sec ty st) = Inr (fst (COFFGenerator_symbol g name v sec ty st))"
| "apply_op g (OpString s) =
     (case COFFGenerator_string g s of Inl e \<Rightarrow> Inl e | Inr (g', off) \<Rightarrow> Inr g')"
| "apply_op g (OpEmit now) =
     (case COFFGenerator_emit g now of Inl e \<Rightarrow> Inl e | Inr (g', out) \<Rightarrow> Inr g')"
| "apply_op g (OpSectionEmit i b) =
     (if i < length (sections g)
      then Inr (g\<lparr>sections := (sections g)[i := fst (COFFSection_emit (sections g ! i) b)]\<rparr>)
      else Inr g)"
| "apply_op g (OpSectionReloc i off symb ty) =
     (if i < length (sections g)
      then Inr (g\<lparr>sections := (sections g)[i := COFFSection_reloc (sections g ! i) off symb ty]\<rparr>)
      else Inr g)"

fun run :: "COFFGenerator \<Rightarrow> op list \<Rightarrow> error + COFFGenerator" where
  "run g [] = Inr g"
| "run g (x # xs) = (case apply_op g x of Inl e \<Rightarrow> Inl e | Inr g' \<Rightarrow> run g' xs)"

section \<open>Notions used in the statements\<close>

text \<open>What \<open>struct_pack\<close> accepts, and the bytes it lays out when it does.\<close>

fun item_ok :: "fmt \<Rightarrow> arg \<Rightarrow> bool" where
  "item_ok (Fs n) (ABytes b) = True"
| "item_ok (Fs n) (AInt v) = False"
| "item_ok f (ABytes b) = False"
| "item_ok f (AInt v) = (0 \<le> v \<and> v < 2 ^ (8 * fmt_size f))"

fun item_bytes :: "fmt \<Rightarrow> arg \<Rightarrow> bytes" where
  "item_bytes (Fs n) (ABytes b) = take n b @ replicate (n - length b) 0"
| "item_bytes f (AInt v) = le_bytes (fmt_size f) (nat v)"
| "item_bytes f (ABytes b) = []"

fun layout :: "nat \<Rightarrow> fmt list \<Rightarrow> arg list \<Rightarrow> bytes" where
  "layout off (f # fs) (a # as) =
     replicate ((fmt_align f - off mod fmt_align f) mod fmt_align f) 0 @ item_bytes f a @
     layout (off + (fmt_align f - off mod fmt_align f) mod fmt_align f + fmt_size f) fs as"
| "layout off fs as = []"

text \<open>The value ranges under which the records can be packed, and the packed records.\<close>

definition section_fields_ok :: "COFFSection \<Rightarrow> bool" where
  "section_fields_ok s \<longleftrightarrow>
     length (sec_data s) < 4294967296 \<and>
     0 \<le> sec_VirtualAddress s \<and> sec_VirtualAddress s < 4294967296 \<and>
     length (sec_relocations s) < 65536 \<and>
     0 \<le> sec_characteristics s \<and> sec_characteristics s < 4294967296"

definition section_record :: "COFFSection \<Rightarrow> bytes \<Rightarrow> bytes" where
  "section_record s enc =
     take 8 (enc @ replicate (8 - length enc) 0) @
     le_bytes 4 (length (sec_data s)) @ le_bytes 4 (nat (sec_VirtualAddress s)) @
     le_bytes 4 (length (sec_data s)) @ le_bytes 4 0 @ le_bytes 4 0 @
     le_bytes 2 0 @ le_bytes 2 0 @ le_bytes 2 (length (sec_relocations s)) @
     replicate 2 0 @ le_bytes 4 (nat (sec_characteristics s))"

definition relocation_fields_ok :: "COFFRelocation \<Rightarrow> bool" where
  "relocation_fields_ok r \<longleftrightarrow>
     0 \<le> rel_VirtualAddress r \<and> rel_VirtualAddress r < 4294967296 \<and>
     0 \<le> rel_SymbolTableIndex r \<and> rel_SymbolTableIndex r < 4294967296 \<and>
     0 \<le> rel_Type r \<and> rel_Type r < 65536"

definition header_fields_ok :: "COFFHeader \<Rightarrow> int \<Rightarrow> bool" where
  "header_fields_ok h now \<longleftrightarrow>
     0 \<le> Machine h \<and> Machine h < 65536 \<and>
     0 \<le> NumberOfSections h \<and> NumberOfSections h < 65536 \<and>
     0 \<le> now \<and> now < 4294967296 \<and>
     0 \<le> PointerToSymbolTable h \<and> PointerToSymbolTable h < 4294967296 \<and>
     0 \<le> NumberOfSymbols h \<and> NumberOfSymbols h < 4294967296 \<and>
     0 \<le> SizeOfOptionalHeader h \<and> SizeOfOptionalHeader h < 65536 \<and>
     0 \<le> Characteristics h \<and> Characteristics h < 65536"

definition header_record :: "COFFHeader \<Rightarrow> int \<Rightarrow> bytes" where
  "header_record h now =
     le_bytes 2 (nat (Machine h)) @ le_bytes 2 (nat (NumberOfSections h)) @
     le_bytes 4 (nat now) @ le_bytes 4 (nat (PointerToSymbolTable h)) @
     le_bytes 4 (nat (NumberOfSymbols h)) @ le_bytes 2 (nat (SizeOfOptionalHeader h)) @
     le_bytes 2 (nat (Characteristics h))"

definition symbol_fields_ok :: "COFFSymbol \<Rightarrow> bool" where
  "symbol_fields_ok s \<longleftrightarrow>
     0 \<le> sym_value s \<and> sym_value s < 4294967296 \<and>
     0 \<le> sym_section s \<and> sym_section s < 65536 \<and>
     0 \<le> sym_type s \<and> sym_type s < 65536 \<and>
     0 \<le> sym_storage s \<and> sym_storage s < 256"

definition symbol_record :: "COFFSymbol \<Rightarrow> bytes \<Rightarrow> bytes" where
  "symbol_record s nameBytes =
     nameBytes @ le_bytes 4 (nat (sym_value s)) @ le_bytes 2 (nat (sym_section s)) @
     le_bytes 2 (nat (sym_type s)) @ le_bytes 1 (nat (sym_storage s)) @ le_bytes 1 0"

text \<open>Totals over the sections, and the string-table prefix law.\<close>

definition data_total :: "COFFSection list \<Rightarrow> nat" where
  "data_total ss = sum_list (map (\<lambda>s. length (sec_data s)) ss)"

definition reloc_total :: "COFFSection list \<Rightarrow> nat" where
  "reloc_total ss = sum_list (map (\<lambda>s. length (sec_relocations s)) ss)"

text \<open>The bytes a symbol adds to the string table when it is packed.\<close>

definition long_name_bytes :: "COFFSymbol \<Rightarrow> nat" where
  "long_name_bytes s =
     (if length (sym_name s) \<le> 8 then 0
      else (case encode (sym_name s) of Inl e \<Rightarrow> 0 | Inr enc \<Rightarrow> length enc + 1))"

definition long_names_total :: "COFFSymbol list \<Rightarrow> nat" where
  "long_names_total ss = sum_list (map long_name_bytes ss)"

definition strings_prefix_ok :: "COFFGenerator \<Rightarrow> bool" where
  "strings_prefix_ok g \<longleftrightarrow>
     4 \<le> length (strings g) \<and> le_nat (take 4 (strings g)) = length (strings g)"

definition short_names :: "COFFGenerator \<Rightarrow> bool" where
  "short_names g \<longleftrightarrow> list_all (\<lambda>s. length (sym_name s) \<le> 8) (symbols g)"

text \<open>Observations on the result of \<open>COFFGenerator_emit\<close>.\<close>

definition emit_output :: "COFFGenerator \<Rightarrow> int \<Rightarrow> bytes option" where
  "emit_output g now =
     (case COFFGenerator_emit g now of Inl e \<Rightarrow> None | Inr (g', out) \<Rightarrow> Some out)"

definition emit_state :: "COFFGenerator \<Rightarrow> int \<Rightarrow> COFFGenerator option" where
  "emit_state g now =
     (case COFFGenerator_emit g now of Inl e \<Rightarrow> None | Inr (g', out) \<Rightarrow> Some g')"

text \<open>Bytes \<open>a..b\<close> of the emitted file.\<close>

definition emit_field :: "COFFGenerator \<Rightarrow> int \<Rightarrow> nat \<Rightarrow> nat \<Rightarrow> bytes option" where
  "emit_field g now a b =
     (case COFFGenerator_emit g now of Inl e \<Rightarrow> None | Inr (g', out) \<Rightarrow> Some (slice out a b))"

text \<open>Two calls of \<^verbatim>\<open>emit\<close> in a row, at clock values \<open>t1\<close> and \<open>t2\<close>.\<close>

definition emit_twice :: "COFFGenerator \<Rightarrow> int \<Rightarrow> int \<Rightarrow> (bytes \<times> bytes) option" where
  "emit_twice g t1 t2 =
     (case COFFGenerator_emit g t1 of
        Inl e \<Rightarrow> None
      | Inr (g1, out1) \<Rightarrow>
          (case COFFGenerator_emit g1 t2 of
             Inl e \<Rightarrow> None
           | Inr (g2, out2) \<Rightarrow> Some (out1, out2)))"

text \<open>
  The invariant of the dictionary \<^verbatim>\<open>sectionHeaders\<close> during \<^verbatim>\<open>emit\<close>: every recorded
  offset is the start of a 40-byte record inside the buffer.
\<close>

definition headers_in :: "(str \<rightharpoonup> nat) \<Rightarrow> bytes \<Rightarrow> bool" where
  "headers_in hs result \<longleftrightarrow> (\<forall>n h. hs n = Some h \<longrightarrow> h + 40 \<le> length result)"

section \<open>Example inputs\<close>

text \<open>A Python string literal as its list of code points.\<close>

definition str_of :: "string \<Rightarrow> str" where
  "str_of cs = map of_char cs"

definition hello_ops :: "op list" where
  "hello_ops =
     [OpSection (str_of ''.text'') 0x60000020,
      OpSectionEmit 0 [0x55, 0xC3],
      OpSymbol (str_of ''main'') 0 1 0x20 2,
      OpSectionReloc 0 1 0 4]"

definition hello_text :: COFFSection where
  "hello_text =
     \<lparr>sec_name = str_of ''.text'',
      sec_relocations = [\<lparr>rel_VirtualAddress = 1, rel_SymbolTableIndex = 0, rel_Type = 4\<rparr>],
      sec_VirtualAddress = 0, sec_characteristics = 0x60000020,
      sec_data = [0x55, 0xC3]\<rparr>"

definition hello_generator :: COFFGenerator where
  "hello_generator =
     \<lparr>is64bit = True,
      symbols = [\<lparr>sym_name = str_of ''main'', sym_value = 0, sym_section = 1,
                  sym_type = 0x20, sym_storage = 2\<rparr>],
      sections = [hello_text],
      strings = [4, 0, 0, 0],
      header = \<lparr>Machine = 0x8664, TimeDateStamp = 0, NumberOfSections = 1,
                PointerToSymbolTable = 0, NumberOfSymbols = 1,
                SizeOfOptionalHeader = 0, Characteristics = 0\<rparr>\<rparr>"

definition long_symbol :: COFFSymbol where
  "long_symbol =
     \<lparr>sym_name = str_of ''long_name'', sym_value = 0, sym_section = 0,
      sym_type = 0x20, sym_storage = 2\<rparr>"

definition long_generator :: COFFGenerator where
  "long_generator =
     \<lparr>is64bit = True, symbols = [long_symbol], sections = [], strings = [4, 0, 0, 0],
      header = \<lparr>Machine = 0x8664, TimeDateStamp = 0, NumberOfSections = 0,
                PointerToSymbolTable = 0, NumberOfSymbols = 1,
                SizeOfOptionalHeader = 0, Characteristics = 0\<rparr>\<rparr>"

definition dup_ops :: "op list" where
  "dup_ops =
     [OpSection (str_of ''.text'') 0x60000020,
      OpSection (str_of ''.text'') 0x60000020,
      OpSectionEmit 0 [0x90],
      OpSectionEmit 1 [0xC3]]"

definition dup_generator :: COFFGenerator where
  "dup_generator =
     \<lparr>is64bit = True, symbols = [],
      sections =
        [\<lparr>sec_name = str_of ''.text'', sec_relocations = [], sec_VirtualAddress = 0,
          sec_characteristics = 0x60000020, sec_data = [0x90]\<rparr>,
         \<lparr>sec_name = str_of ''.text'', sec_relocations = [], sec_VirtualAddress = 0,
          sec_characteristics = 0x60000020, sec_data = [0xC3]\<rparr>],
      strings = [4, 0, 0, 0],
      header = \<lparr>Machine = 0x8664, TimeDateStamp = 0, NumberOfSections = 2,
                PointerToSymbolTable = 0, NumberOfSymbols = 0,
                SizeOfOptionalHeader = 0, Characteristics = 0\<rparr>\<rparr>"

definition big_ops :: "op list" where
  "big_ops =
     [OpSection (str_of ''.text'') 0x60000020,
      OpSectionEmit 0 (replicate 65476 0x90),
      OpSectionReloc 0 0 0 4]"

definition big_generator :: COFFGenerator where
  "big_generator =
     \<lparr>is64bit = True, symbols = [],
      sections =
        [\<lparr>sec_name = str_of ''.text'',
          sec_relocations = [\<lparr>rel_VirtualAddress = 0, rel_SymbolTableIndex = 0, rel_Type = 4\<rparr>],
          sec_VirtualAddress = 0, sec_characteristics = 0x60000020,
          sec_data = replicate 65476 0x90\<rparr>],
      strings = [4, 0, 0, 0],
      header = \<lparr>Machine = 0x8664, TimeDateStamp = 0, NumberOfSections = 1,
                PointerToSymbolTable = 0, NumberOfSymbols = 0,
                SizeOfOptionalHeader = 0, Characteristics = 0\<rparr>\<rparr>"

definition accent_symbol :: COFFSymbol where
  "accent_symbol =
     \<lparr>sym_name = [233, 233, 233, 233, 233, 233, 233, 233], sym_value = 0, sym_section = 1,
      sym_type = 0x20, sym_storage = 2\<rparr>"

section \<open>Byte fields\<close>

lemma length_le_bytes [simp]: "length (le_bytes k n) = k"
  by (induction k arbitrary: n) auto

lemma le_nat_le_bytes: "le_nat (le_bytes k n) = n mod 256 ^ k"
proof (induction k arbitrary: n)
  case 0
  then show ?case by simp
next
  case (Suc k)
  have b: "unat (word_of_nat n :: byte) = n mod 256"
    by (simp add: unat_of_nat)
  have "le_nat (le_bytes (Suc k) n) = n mod 256 + 256 * ((n div 256) mod 256 ^ k)"
    by (simp only: le_bytes.simps le_nat.simps b Suc)
  also have "\<dots> = n mod (256 * 256 ^ k)"
    by (simp only: mod_mult2_eq add.commute)
  finally show ?case by (simp only: power_Suc)
qed

lemma le_nat_le_bytes_4: "n < 4294967296 \<Longrightarrow> le_nat (le_bytes 4 n) = n"
  by (simp add: le_nat_le_bytes)

lemma le_nat_le_bytes_2: "n < 65536 \<Longrightarrow> le_nat (le_bytes 2 n) = n"
  by (simp add: le_nat_le_bytes)

lemma le_bytes_numeral:
  "le_bytes (numeral k) n = word_of_nat n # le_bytes (pred_numeral k) (n div 256)"
  by (simp only: numeral_eq_Suc le_bytes.simps)

lemma le_bytes_zero: "le_bytes k 0 = replicate k 0"
  by (induction k) auto

section \<open>What \<open>struct_pack\<close> returns\<close>

lemma pack_item_eq:
  "pack_item f a = (if item_ok f a then Inr (item_bytes f a) else Inl StructError)"
  by (cases f; cases a) simp_all

lemma struct_pack_from_eq:
  "struct_pack_from off fs as =
     (if list_all2 item_ok fs as then Inr (layout off fs as) else Inl StructError)"
proof (induction off fs as rule: struct_pack_from.induct)
  case (2 off f fs a as)
  then show ?case by (simp add: pack_item_eq Let_def)
qed simp_all

lemma struct_pack_eq:
  "struct_pack fs as =
     (if list_all2 item_ok fs as then Inr (layout 0 fs as) else Inl StructError)"
  by (simp add: struct_pack_def struct_pack_from_eq)

lemma pack_I:
  "struct_pack [FI] [AInt v] =
     (if 0 \<le> v \<and> v < 4294967296 then Inr (le_bytes 4 (nat v)) else Inl StructError)"
  by (simp add: struct_pack_eq)

lemma pack_H:
  "struct_pack [FH] [AInt v] =
     (if 0 \<le> v \<and> v < 65536 then Inr (le_bytes 2 (nat v)) else Inl StructError)"
  by (simp add: struct_pack_eq)

lemma pack_II:
  "struct_pack [FI, FI] [AInt 0, AInt v] =
     (if 0 \<le> v \<and> v < 4294967296 then Inr (le_bytes 4 0 @ le_bytes 4 (nat v))
      else Inl StructError)"
  by (simp add: struct_pack_eq)

lemma COFFRelocation_pack_eq:
  "COFFRelocation_pack r =
     (if relocation_fields_ok r
      then Inr (le_bytes 4 (nat (rel_VirtualAddress r)) @
                le_bytes 4 (nat (rel_SymbolTableIndex r)) @ le_bytes 2 (nat (rel_Type r)))
      else Inl StructError)"
  by (simp add: COFFRelocation_pack_def struct_pack_eq relocation_fields_ok_def)

lemma COFFRelocation_pack_length: "COFFRelocation_pack r = Inr b \<Longrightarrow> length b = 10"
  by (auto simp: COFFRelocation_pack_eq split: if_splits)

lemma COFFSection_pack_eq:
  "COFFSection_pack s =
     (case encode (take 8 (sec_name s)) of
        Inl e \<Rightarrow> Inl e
      | Inr enc \<Rightarrow>
          if section_fields_ok s then Inr (section_record s enc) else Inl StructError)"
proof (cases "encode (take 8 (sec_name s))")
  case (Inl e)
  then show ?thesis by (simp add: COFFSection_pack_def)
next
  case (Inr enc)
  have ok: "list_all2 item_ok [Fs 8, FI, FI, FI, FI, FI, FH, FH, FH, FI]
      [ABytes (ljust enc 8 0), AInt (int (length (sec_data s))), AInt (sec_VirtualAddress s),
       AInt (int (length (sec_data s))), AInt 0, AInt 0, AInt 0, AInt 0,
       AInt (int (length (sec_relocations s))), AInt (sec_characteristics s)]
     \<longleftrightarrow> section_fields_ok s"
    by (auto simp: section_fields_ok_def)
  have lay: "layout 0 [Fs 8, FI, FI, FI, FI, FI, FH, FH, FH, FI]
      [ABytes (ljust enc 8 0), AInt (int (length (sec_data s))), AInt (sec_VirtualAddress s),
       AInt (int (length (sec_data s))), AInt 0, AInt 0, AInt 0, AInt 0,
       AInt (int (length (sec_relocations s))), AInt (sec_characteristics s)]
     = section_record s enc"
    by (simp add: section_record_def ljust_def)
  show ?thesis
    by (simp only: COFFSection_pack_def Inr sum.case struct_pack_eq ok lay)
qed

lemma length_section_record [simp]: "length (section_record s enc) = 40"
  by (simp add: section_record_def)

lemma COFFSection_pack_length: "COFFSection_pack s = Inr b \<Longrightarrow> length b = 40"
  by (auto simp: COFFSection_pack_eq split: sum.splits if_splits)

lemma COFFHeader_pack_eq:
  "COFFHeader_pack h now =
     (if header_fields_ok h now then Inr (h\<lparr>TimeDateStamp := now\<rparr>, header_record h now)
      else Inl StructError)"
  by (simp add: COFFHeader_pack_def struct_pack_eq header_fields_ok_def header_record_def
      Let_def)

lemma length_header_record [simp]: "length (header_record h now) = 20"
  by (simp add: header_record_def)

section \<open>Slice assignment\<close>

lemma slice_assign_inside:
  "b \<le> length xs \<Longrightarrow> a \<le> b \<Longrightarrow> slice_assign xs a b ys = take a xs @ ys @ drop b xs"
  by (simp add: slice_assign_def Let_def min_def max_def)

lemma length_slice_assign:
  "b \<le> length xs \<Longrightarrow> a \<le> b \<Longrightarrow> length ys = b - a \<Longrightarrow>
   length (slice_assign xs a b ys) = length xs"
  by (simp add: slice_assign_inside)

section \<open>The string table\<close>

lemma COFFGenerator_string_eq:
  "COFFGenerator_string g s =
     (case encode s of
        Inl e \<Rightarrow> Inl e
      | Inr enc \<Rightarrow>
          if length (strings g) + length enc + 1 < 4294967296
          then Inr (g\<lparr>strings := slice_assign (strings g @ enc @ [0]) 0 4
                        (le_bytes 4 (length (strings g) + length enc + 1))\<rparr>,
                    length (strings g))
          else Inl StructError)"
  by (cases "encode s") (auto simp: COFFGenerator_string_def Let_def pack_I nat_add_distrib)

lemma COFFGenerator_string_frame:
  assumes "COFFGenerator_string g s = Inr (g', off)"
  shows "sections g' = sections g" and "symbols g' = symbols g" and "header g' = header g"
    and "is64bit g' = is64bit g" and "off = length (strings g)"
  using assms by (auto simp: COFFGenerator_string_eq split: sum.splits if_splits)

lemma COFFGenerator_string_prefix:
  assumes "COFFGenerator_string g s = Inr (g', off)" and "strings_prefix_ok g"
  shows "strings_prefix_ok g'"
proof -
  from assms(1) obtain enc where
    len: "length (strings g) + length enc + 1 < 4294967296" and
    g': "strings g' = slice_assign (strings g @ enc @ [0]) 0 4
           (le_bytes 4 (length (strings g) + length enc + 1))"
    by (auto simp: COFFGenerator_string_eq split: sum.splits if_splits)
  from assms(2) have four: "4 \<le> length (strings g)"
    by (simp add: strings_prefix_ok_def)
  have eq: "strings g' = le_bytes 4 (length (strings g) + length enc + 1) @
      drop 4 (strings g) @ enc @ [0]"
    using four by (simp add: g' slice_assign_inside)
  have l: "length (strings g') = length (strings g) + length enc + 1"
    using four by (simp add: eq)
  have t: "take 4 (strings g') = le_bytes 4 (length (strings g) + length enc + 1)"
    by (simp add: eq)
  show ?thesis
    using four len by (simp add: strings_prefix_ok_def l t le_nat_le_bytes_4)
qed

section \<open>Symbols\<close>

lemma struct_pack_symbol:
  "struct_pack [Fs 8, FI, FH, FH, FB, FB]
     [ABytes nb, AInt (sym_value s), AInt (sym_section s), AInt (sym_type s),
      AInt (sym_storage s), AInt 0] =
   (if symbol_fields_ok s
    then Inr (symbol_record s (take 8 nb @ replicate (8 - length nb) 0))
    else Inl StructError)"
  by (simp add: struct_pack_eq symbol_fields_ok_def symbol_record_def)

lemma COFFSymbol_pack_short:
  assumes "length (sym_name s) \<le> 8"
  shows "COFFSymbol_pack g s =
     (case encode (sym_name s) of
        Inl e \<Rightarrow> Inl e
      | Inr enc \<Rightarrow>
          if symbol_fields_ok s
          then Inr (g, symbol_record s (take 8 (enc @ replicate (8 - length enc) 0)))
          else Inl StructError)"
  using assms
  by (cases "encode (sym_name s)")
    (simp_all add: COFFSymbol_pack_def struct_pack_symbol ljust_def)

lemma COFFSymbol_pack_long:
  assumes "\<not> length (sym_name s) \<le> 8"
  shows "COFFSymbol_pack g s =
     (case COFFGenerator_string g (sym_name s) of
        Inl e \<Rightarrow> Inl e
      | Inr (g', off) \<Rightarrow>
          if symbol_fields_ok s
          then Inr (g', symbol_record s (le_bytes 4 0 @ le_bytes 4 (length (strings g))))
          else Inl StructError)"
proof (cases "COFFGenerator_string g (sym_name s)")
  case (Inl e)
  then show ?thesis using assms by (simp add: COFFSymbol_pack_def)
next
  case (Inr p)
  obtain g' off where p: "p = (g', off)" by (cases p)
  from Inr p have off: "off = length (strings g)" and "off < 4294967296"
    by (auto simp: COFFGenerator_string_eq split: sum.splits if_splits)
  then show ?thesis
    using assms Inr p by (simp add: COFFSymbol_pack_def pack_II struct_pack_symbol)
qed

lemma length_symbol_record [simp]: "length (symbol_record s nb) = length nb + 10"
  by (simp add: symbol_record_def)

lemma COFFSymbol_pack_length:
  assumes "COFFSymbol_pack g s = Inr (g', b)"
  shows "length b = 18"
proof (cases "length (sym_name s) \<le> 8")
  case True
  then show ?thesis
    using assms by (auto simp: COFFSymbol_pack_short split: sum.splits if_splits)
next
  case False
  then show ?thesis
    using assms by (auto simp: COFFSymbol_pack_long split: sum.splits if_splits)
qed

lemma COFFSymbol_pack_frame:
  assumes "COFFSymbol_pack g s = Inr (g', b)"
  shows "sections g' = sections g \<and> symbols g' = symbols g \<and> header g' = header g \<and>
         is64bit g' = is64bit g"
proof (cases "length (sym_name s) \<le> 8")
  case True
  then show ?thesis
    using assms by (auto simp: COFFSymbol_pack_short split: sum.splits if_splits)
next
  case False
  then show ?thesis
    using assms
    by (auto simp: COFFSymbol_pack_long split: sum.splits if_splits
        dest: COFFGenerator_string_frame)
qed

lemma COFFSymbol_pack_prefix:
  assumes "COFFSymbol_pack g s = Inr (g', b)" and "strings_prefix_ok g"
  shows "strings_prefix_ok g'"
proof (cases "length (sym_name s) \<le> 8")
  case True
  then show ?thesis
    using assms by (auto simp: COFFSymbol_pack_short split: sum.splits if_splits)
next
  case False
  then show ?thesis
    using assms
    by (auto simp: COFFSymbol_pack_long split: sum.splits if_splits
        dest: COFFGenerator_string_prefix)
qed

section \<open>The loops of \<^verbatim>\<open>emit\<close>\<close>

lemma headers_in_grow:
  "headers_in hs r \<Longrightarrow> length r \<le> length r' \<Longrightarrow> headers_in hs r'"
  by (fastforce simp: headers_in_def)

lemma emit_headers_length:
  "emit_headers ss r hs = Inr (r', hs') \<Longrightarrow> length r' = length r + 40 * length ss"
proof (induction ss arbitrary: r hs)
  case Nil
  then show ?case by simp
next
  case (Cons s ss)
  from Cons.prems obtain b where b: "COFFSection_pack s = Inr b"
    and rest: "emit_headers ss (r @ b) (hs(sec_name s \<mapsto> length r)) = Inr (r', hs')"
    by (auto split: sum.splits)
  from Cons.IH[OF rest] COFFSection_pack_length[OF b] show ?case by simp
qed

lemma emit_headers_in:
  "emit_headers ss r hs = Inr (r', hs') \<Longrightarrow> headers_in hs r \<Longrightarrow> headers_in hs' r'"
proof (induction ss arbitrary: r hs)
  case Nil
  then show ?case by simp
next
  case (Cons s ss)
  from Cons.prems(1) obtain b where b: "COFFSection_pack s = Inr b"
    and rest: "emit_headers ss (r @ b) (hs(sec_name s \<mapsto> length r)) = Inr (r', hs')"
    by (auto split: sum.splits)
  have "headers_in (hs(sec_name s \<mapsto> length r)) (r @ b)"
    unfolding headers_in_def
  proof (intro allI impI)
    fix n h
    assume nh: "(hs(sec_name s \<mapsto> length r)) n = Some h"
    show "h + 40 \<le> length (r @ b)"
    proof (cases "n = sec_name s")
      case True
      with nh COFFSection_pack_length[OF b] show ?thesis by simp
    next
      case False
      with nh have "hs n = Some h" by simp
      with Cons.prems(2) have "h + 40 \<le> length r" by (simp add: headers_in_def)
      then show ?thesis by simp
    qed
  qed
  from Cons.IH[OF rest this] show ?case .
qed

lemma emit_headers_dom:
  "emit_headers ss r hs = Inr (r', hs') \<Longrightarrow> n \<in> dom hs \<union> sec_name ` set ss \<Longrightarrow> n \<in> dom hs'"
proof (induction ss arbitrary: r hs)
  case Nil
  then show ?case by simp
next
  case (Cons s ss)
  from Cons.prems(1) obtain b where
    rest: "emit_headers ss (r @ b) (hs(sec_name s \<mapsto> length r)) = Inr (r', hs')"
    by (auto split: sum.splits)
  have "n \<in> dom (hs(sec_name s \<mapsto> length r)) \<union> sec_name ` set ss"
    using Cons.prems(2) by auto
  from Cons.IH[OF rest this] show ?case .
qed

lemma emit_data_length:
  "emit_data ss hs r = Inr r' \<Longrightarrow> headers_in hs r \<Longrightarrow> length r' = length r + data_total ss"
proof (induction ss arbitrary: r)
  case Nil
  then show ?case by (simp add: data_total_def)
next
  case (Cons s ss)
  from Cons.prems(1) obtain h where h: "hs (sec_name s) = Some h"
    and lt: "length r < 4294967296"
    and rest: "emit_data ss hs
        (slice_assign r (h + 20) (h + 24) (le_bytes 4 (length r)) @ sec_data s) = Inr r'"
    by (auto simp: pack_I split: option.splits sum.splits if_splits)
  from h Cons.prems(2) have hin: "h + 40 \<le> length r"
    by (simp add: headers_in_def)
  then have l: "length (slice_assign r (h + 20) (h + 24) (le_bytes 4 (length r))) = length r"
    by (simp add: length_slice_assign)
  have "headers_in hs (slice_assign r (h + 20) (h + 24) (le_bytes 4 (length r)) @ sec_data s)"
    by (rule headers_in_grow[OF Cons.prems(2)]) (simp add: l)
  from Cons.IH[OF rest this] show ?case
    by (simp add: l data_total_def)
qed

lemma emit_relocs_of_length:
  "emit_relocs_of rs r = Inr r' \<Longrightarrow> length r' = length r + 10 * length rs"
proof (induction rs arbitrary: r)
  case Nil
  then show ?case by simp
next
  case (Cons x rs)
  from Cons.prems obtain b where b: "COFFRelocation_pack x = Inr b"
    and rest: "emit_relocs_of rs (r @ b) = Inr r'"
    by (auto split: sum.splits)
  from Cons.IH[OF rest] COFFRelocation_pack_length[OF b] show ?case by simp
qed

lemma emit_relocs_length:
  "emit_relocs ss hs r = Inr r' \<Longrightarrow> headers_in hs r \<Longrightarrow>
   length r' = length r + 10 * reloc_total ss"
proof (induction ss arbitrary: r)
  case Nil
  then show ?case by (simp add: reloc_total_def)
next
  case (Cons s ss)
  show ?case
  proof (cases "sec_relocations s = []")
    case True
    with Cons.prems have "emit_relocs ss hs r = Inr r'" by simp
    from Cons.IH[OF this Cons.prems(2)] True show ?thesis
      by (simp add: reloc_total_def)
  next
    case False
    with Cons.prems(1) obtain h r1 where h: "hs (sec_name s) = Some h"
      and r1: "emit_relocs_of (sec_relocations s)
          (slice_assign r (h + 24) (h + 26) (le_bytes 2 (length r))) = Inr r1"
      and rest: "emit_relocs ss hs r1 = Inr r'"
      by (auto simp: pack_H split: option.splits sum.splits if_splits)
    from h Cons.prems(2) have hin: "h + 40 \<le> length r"
      by (simp add: headers_in_def)
    then have l: "length (slice_assign r (h + 24) (h + 26) (le_bytes 2 (length r))) = length r"
      by (simp add: length_slice_assign)
    have l1: "length r1 = length r + 10 * length (sec_relocations s)"
      using emit_relocs_of_length[OF r1] by (simp add: l)
    have "headers_in hs r1"
      by (rule headers_in_grow[OF Cons.prems(2)]) (simp add: l1)
    from Cons.IH[OF rest this] show ?thesis
      by (simp add: l1 reloc_total_def)
  qed
qed

lemma emit_symbols_length:
  "emit_symbols ss g r = Inr (g', r') \<Longrightarrow> length r' = length r + 18 * length ss"
proof (induction ss arbitrary: g r)
  case Nil
  then show ?case by simp
next
  case (Cons s ss)
  from Cons.prems obtain g1 b where b: "COFFSymbol_pack g s = Inr (g1, b)"
    and rest: "emit_symbols ss g1 (r @ b) = Inr (g', r')"
    by (auto split: sum.splits)
  from Cons.IH[OF rest] COFFSymbol_pack_length[OF b] show ?case by simp
qed

lemma emit_symbols_frame:
  "emit_symbols ss g r = Inr (g', r') \<Longrightarrow>
   sections g' = sections g \<and> symbols g' = symbols g \<and> header g' = header g \<and>
   is64bit g' = is64bit g"
proof (induction ss arbitrary: g r)
  case Nil
  then show ?case by simp
next
  case (Cons s ss)
  from Cons.prems obtain g1 b where b: "COFFSymbol_pack g s = Inr (g1, b)"
    and rest: "emit_symbols ss g1 (r @ b) = Inr (g', r')"
    by (auto split: sum.splits)
  from Cons.IH[OF rest] COFFSymbol_pack_frame[OF b] show ?case by simp
qed

lemma emit_symbols_prefix:
  "emit_symbols ss g r = Inr (g', r') \<Longrightarrow> strings_prefix_ok g \<Longrightarrow> strings_prefix_ok g'"
proof (induction ss arbitrary: g r)
  case Nil
  then show ?case by simp
next
  case (Cons s ss)
  from Cons.prems(1) obtain g1 b where b: "COFFSymbol_pack g s = Inr (g1, b)"
    and rest: "emit_symbols ss g1 (r @ b) = Inr (g', r')"
    by (auto split: sum.splits)
  from Cons.IH[OF rest COFFSymbol_pack_prefix[OF b Cons.prems(2)]] show ?case .
qed

section \<open>\<^verbatim>\<open>emit\<close>, step by step\<close>

lemma COFFGenerator_emit_Inr:
  assumes "COFFGenerator_emit g now = Inr (g', out)"
  obtains r1 hs r2 r3 g2 r4 where
    "emit_headers (sections g) (replicate 20 0) Map.empty = Inr (r1, hs)"
    "emit_data (sections g) hs r1 = Inr r2"
    "emit_relocs (sections g) hs r2 = Inr r3"
    "emit_symbols (symbols g)
       (g\<lparr>header := (header g)\<lparr>PointerToSymbolTable := int (length r3)\<rparr>\<rparr>) r3 = Inr (g2, r4)"
    "header_fields_ok (header g2) now"
    "g' = g2\<lparr>header := (header g2)\<lparr>TimeDateStamp := now\<rparr>\<rparr>"
    "out = slice_assign (r4 @ strings g2) 0 20 (header_record (header g2) now)"
  using assms
  by (auto simp: COFFGenerator_emit_def Let_def COFFHeader_pack_eq
      split: sum.splits prod.splits if_splits)

lemma headers_in_empty: "headers_in Map.empty r"
  by (simp add: headers_in_def)

section \<open>Evaluation of the examples\<close>

lemma str_of_text: "str_of ''.text'' = [46, 116, 101, 120, 116]"
  by (simp add: str_of_def)

lemma str_of_main: "str_of ''main'' = [109, 97, 105, 110]"
  by (simp add: str_of_def)

lemma str_of_long_name: "str_of ''long_name'' = [108, 111, 110, 103, 95, 110, 97, 109, 101]"
  by (simp add: str_of_def)

lemma str_of_abc: "str_of ''abc'' = [97, 98, 99]"
  by (simp add: str_of_def)

lemmas run_simps =
  COFFGenerator_init_def COFFHeader_init_def COFFGenerator_section_def
  COFFGenerator_symbol_def COFFSection_init_def COFFSection_emit_def COFFSection_reloc_def
  Let_def

lemma run_hello: "run (COFFGenerator_init True 0) hello_ops = Inr hello_generator"
  by (simp add: hello_ops_def hello_generator_def hello_text_def run_simps)

lemma run_dup: "run (COFFGenerator_init True 0) dup_ops = Inr dup_generator"
  by (simp add: dup_ops_def dup_generator_def run_simps)

lemma run_big: "run (COFFGenerator_init True 0) big_ops = Inr big_generator"
  by (simp add: big_ops_def big_generator_def run_simps)

lemma run_long:
  "run (COFFGenerator_init True 0) [OpSymbol (str_of ''long_name'') 0 0 0x20 2] =
     Inr long_generator"
  by (simp add: long_generator_def long_symbol_def run_simps)

lemma replicate_numeral: "replicate (numeral k) x = x # replicate (pred_numeral k) x"
  by (simp add: numeral_eq_Suc)

lemma le_bytes_numeral_mod:
  "le_bytes (numeral k) n = word_of_nat (n mod 256) # le_bytes (pred_numeral k) (n div 256)"
proof -
  have "(word_of_nat n :: byte) = word_of_nat (n mod 256)"
    by (simp add: word_of_nat_eq_iff take_bit_eq_mod)
  then show ?thesis by (simp add: le_bytes_numeral)
qed

lemmas eval_simps =
  COFFGenerator_emit_def COFFSection_pack_eq COFFRelocation_pack_eq COFFHeader_pack_eq
  COFFSymbol_pack_short COFFSymbol_pack_long COFFGenerator_string_eq
  section_fields_ok_def relocation_fields_ok_def header_fields_ok_def symbol_fields_ok_def
  section_record_def header_record_def symbol_record_def
  utf8_char_def pack_I pack_H slice_assign_def le_bytes_numeral_mod replicate_numeral Let_def

section \<open>The string-table prefix law\<close>

lemma COFFGenerator_init_prefix: "strings_prefix_ok (COFFGenerator_init is64 t0)"
  by (simp add: COFFGenerator_init_def strings_prefix_ok_def)

lemma emit_strings_prefix:
  assumes "COFFGenerator_emit g now = Inr (g', out)" and "strings_prefix_ok g"
  shows "strings_prefix_ok g'"
proof -
  from assms(1) obtain r3 g2 r4 where
    s: "emit_symbols (symbols g)
       (g\<lparr>header := (header g)\<lparr>PointerToSymbolTable := int (length r3)\<rparr>\<rparr>) r3 = Inr (g2, r4)" and
    g': "g' = g2\<lparr>header := (header g2)\<lparr>TimeDateStamp := now\<rparr>\<rparr>"
    by (rule COFFGenerator_emit_Inr)
  have "strings_prefix_ok (g\<lparr>header := (header g)\<lparr>PointerToSymbolTable := int (length r3)\<rparr>\<rparr>)"
    using assms(2) by (simp add: strings_prefix_ok_def)
  from emit_symbols_prefix[OF s this] show ?thesis
    by (simp add: g' strings_prefix_ok_def)
qed

lemma apply_op_prefix:
  assumes "apply_op g x = Inr g'" and "strings_prefix_ok g"
  shows "strings_prefix_ok g'"
proof (cases x)
  case (OpSection name ch)
  with assms show ?thesis
    by (auto simp: COFFGenerator_section_def Let_def strings_prefix_ok_def)
next
  case (OpSymbol name v sec ty st)
  with assms show ?thesis
    by (auto simp: COFFGenerator_symbol_def Let_def strings_prefix_ok_def)
next
  case (OpString s)
  with assms show ?thesis
    by (auto split: sum.splits dest: COFFGenerator_string_prefix)
next
  case (OpEmit now)
  with assms show ?thesis
    by (auto split: sum.splits dest: emit_strings_prefix)
next
  case (OpSectionEmit i b)
  with assms show ?thesis
    by (auto simp: strings_prefix_ok_def split: if_splits)
next
  case (OpSectionReloc i off symb ty)
  with assms show ?thesis
    by (auto simp: strings_prefix_ok_def split: if_splits)
qed

lemma run_prefix:
  "run g ops = Inr g' \<Longrightarrow> strings_prefix_ok g \<Longrightarrow> strings_prefix_ok g'"
proof (induction ops arbitrary: g)
  case Nil
  then show ?case by simp
next
  case (Cons x ops)
  from Cons.prems(1) obtain g1 where a: "apply_op g x = Inr g1" and r: "run g1 ops = Inr g'"
    by (auto split: sum.splits)
  from Cons.IH[OF r apply_op_prefix[OF a Cons.prems(2)]] show ?case .
qed

text \<open>
  C8: in the initial state and after every sequence of calls (\<^verbatim>\<open>section\<close>, \<^verbatim>\<open>symbol\<close>,
  \<^verbatim>\<open>string\<close>, \<^verbatim>\<open>emit\<close>, and a section's \<^verbatim>\<open>emit\<close> and \<^verbatim>\<open>reloc\<close>) each of which returned,
  the string table has at least 4 bytes and its first 4 bytes, read as a little-endian
  number, are the table's length, those 4 bytes included.
\<close>

theorem run_strings_prefix:
  assumes "run (COFFGenerator_init is64 t0) ops = Inr g"
  shows "strings_prefix_ok g"
  by (rule run_prefix[OF assms COFFGenerator_init_prefix])

section \<open>Symbols with short names\<close>

lemma emit_symbols_short:
  "list_all (\<lambda>s. length (sym_name s) \<le> 8) ss \<Longrightarrow> emit_symbols ss g r = Inr (g', r') \<Longrightarrow>
   g' = g \<and> emit_symbols ss gx r = Inr (gx, r')"
proof (induction ss arbitrary: r)
  case Nil
  then show ?case by simp
next
  case (Cons s ss)
  from Cons.prems(1) have short: "length (sym_name s) \<le> 8"
    and rest_short: "list_all (\<lambda>s. length (sym_name s) \<le> 8) ss"
    by simp_all
  from Cons.prems(2) obtain g1 b where pk: "COFFSymbol_pack g s = Inr (g1, b)"
    and rest: "emit_symbols ss g1 (r @ b) = Inr (g', r')"
    by (auto split: sum.splits)
  from pk short have g1: "g1 = g" and pkx: "COFFSymbol_pack gx s = Inr (gx, b)"
    by (auto simp: COFFSymbol_pack_short split: sum.splits if_splits)
  from Cons.IH[OF rest_short rest[unfolded g1]] pkx show ?case
    by simp
qed

section \<open>The header record\<close>

lemma header_record_take4:
  "take 4 (header_record h now) =
     le_bytes 2 (nat (Machine h)) @ le_bytes 2 (nat (NumberOfSections h))"
  by (simp add: header_record_def)

lemma header_record_drop8:
  "drop 8 (header_record h now) =
     le_bytes 4 (nat (PointerToSymbolTable h)) @ le_bytes 4 (nat (NumberOfSymbols h)) @
     le_bytes 2 (nat (SizeOfOptionalHeader h)) @ le_bytes 2 (nat (Characteristics h))"
  by (simp add: header_record_def)

lemma header_record_stamp [simp]:
  "header_record (h\<lparr>TimeDateStamp := t\<rparr>) now = header_record h now"
  by (simp add: header_record_def)

lemma header_fields_ok_stamp [simp]:
  "header_fields_ok (h\<lparr>TimeDateStamp := t\<rparr>) now = header_fields_ok h now"
  by (simp add: header_fields_ok_def)

lemma slice_assign_header:
  assumes "20 \<le> length xs"
  shows "slice_assign xs 0 20 (header_record h now) = header_record h now @ drop 20 xs"
  using assms by (simp add: slice_assign_inside)

section \<open>The loops of \<^verbatim>\<open>emit\<close>, together\<close>

lemma emit_loops_length:
  assumes "emit_headers ss (replicate 20 0) Map.empty = Inr (r1, hs)"
    and "emit_data ss hs r1 = Inr r2"
    and "emit_relocs ss hs r2 = Inr r3"
  shows "length r3 = 20 + 40 * length ss + data_total ss + 10 * reloc_total ss"
proof -
  have l1: "length r1 = 20 + 40 * length ss"
    using emit_headers_length[OF assms(1)] by simp
  have in1: "headers_in hs r1"
    by (rule emit_headers_in[OF assms(1) headers_in_empty])
  have l2: "length r2 = length r1 + data_total ss"
    by (rule emit_data_length[OF assms(2) in1])
  have in2: "headers_in hs r2"
    by (rule headers_in_grow[OF in1]) (simp add: l2)
  have l3: "length r3 = length r2 + 10 * reloc_total ss"
    by (rule emit_relocs_length[OF assms(3) in2])
  show ?thesis by (simp add: l1 l2 l3)
qed

section \<open>Symbols with long names\<close>

lemma length_slice_assign_prefix:
  "length ys = 4 \<Longrightarrow> length xs \<le> length (slice_assign xs 0 4 ys)"
  by (simp add: slice_assign_def Let_def)

lemma COFFSymbol_pack_strings_length:
  assumes "COFFSymbol_pack g s = Inr (g', b)"
  shows "length (strings g) \<le> length (strings g') \<and>
         (\<not> length (sym_name s) \<le> 8 \<longrightarrow> length (strings g) < length (strings g'))"
proof (cases "length (sym_name s) \<le> 8")
  case True
  with assms show ?thesis
    by (auto simp: COFFSymbol_pack_short split: sum.splits if_splits)
next
  case False
  with assms obtain enc where
    g': "strings g' = slice_assign (strings g @ enc @ [0]) 0 4
           (le_bytes 4 (length (strings g) + length enc + 1))"
    by (auto simp: COFFSymbol_pack_long COFFGenerator_string_eq split: sum.splits if_splits)
  have "length (strings g @ enc @ [0]) \<le> length (strings g')"
    unfolding g' by (rule length_slice_assign_prefix) simp
  then show ?thesis by simp
qed

lemma emit_symbols_strings_length:
  "emit_symbols ss g r = Inr (g', r') \<Longrightarrow>
   length (strings g) \<le> length (strings g') \<and>
   (\<not> list_all (\<lambda>s. length (sym_name s) \<le> 8) ss \<longrightarrow> length (strings g) < length (strings g'))"
proof (induction ss arbitrary: g r)
  case Nil
  then show ?case by simp
next
  case (Cons s ss)
  from Cons.prems obtain g1 b where pk: "COFFSymbol_pack g s = Inr (g1, b)"
    and rest: "emit_symbols ss g1 (r @ b) = Inr (g', r')"
    by (auto split: sum.splits)
  from COFFSymbol_pack_strings_length[OF pk] Cons.IH[OF rest] show ?case
    by auto
qed

lemma COFFSymbol_pack_strings_exact:
  assumes "COFFSymbol_pack g s = Inr (g', b)" and "4 \<le> length (strings g)"
  shows "length (strings g') = length (strings g) + long_name_bytes s"
proof (cases "length (sym_name s) \<le> 8")
  case True
  with assms(1) show ?thesis
    by (auto simp: COFFSymbol_pack_short long_name_bytes_def split: sum.splits if_splits)
next
  case False
  with assms(1) obtain enc where enc: "encode (sym_name s) = Inr enc" and
    g': "strings g' = slice_assign (strings g @ enc @ [0]) 0 4
           (le_bytes 4 (length (strings g) + length enc + 1))"
    by (auto simp: COFFSymbol_pack_long COFFGenerator_string_eq split: sum.splits if_splits)
  have "length (strings g') = length (strings g @ enc @ [0])"
    unfolding g' using assms(2) by (intro length_slice_assign) simp_all
  with False enc show ?thesis
    by (simp add: long_name_bytes_def)
qed

lemma emit_symbols_strings_exact:
  "emit_symbols ss g r = Inr (g', r') \<Longrightarrow> 4 \<le> length (strings g) \<Longrightarrow>
   length (strings g') = length (strings g) + long_names_total ss"
proof (induction ss arbitrary: g r)
  case Nil
  then show ?case by (simp add: long_names_total_def)
next
  case (Cons s ss)
  from Cons.prems(1) obtain g1 b where pk: "COFFSymbol_pack g s = Inr (g1, b)"
    and rest: "emit_symbols ss g1 (r @ b) = Inr (g', r')"
    by (auto split: sum.splits)
  note l1 = COFFSymbol_pack_strings_exact[OF pk Cons.prems(2)]
  then have "4 \<le> length (strings g1)"
    using Cons.prems(2) by simp
  from Cons.IH[OF rest this] l1 show ?case
    by (simp add: long_names_total_def)
qed

section \<open>The frame of \<^verbatim>\<open>emit\<close>\<close>

text \<open>
  C3 (amended): when \<^verbatim>\<open>emit()\<close> returns, the sections (names, data, relocations), the
  symbol list and the machine flag are unchanged, and of the header only the symbol-table
  pointer (set to the offset of the symbol table) and the timestamp (set to the clock)
  change. The string table is unchanged when every symbol name has at most 8
  characters, and longer than before otherwise.
\<close>

theorem emit_frame:
  assumes "COFFGenerator_emit g now = Inr (g', out)"
  shows "sections g' = sections g \<and> symbols g' = symbols g \<and> is64bit g' = is64bit g \<and>
     header g' = (header g)\<lparr>TimeDateStamp := now,
        PointerToSymbolTable := int (20 + 40 * length (sections g) + data_total (sections g) +
          10 * reloc_total (sections g))\<rparr> \<and>
     (short_names g \<longrightarrow> strings g' = strings g) \<and>
     (\<not> short_names g \<longrightarrow> length (strings g) < length (strings g'))"
proof -
  from assms obtain r1 hs r2 r3 g2 r4 where
    h: "emit_headers (sections g) (replicate 20 0) Map.empty = Inr (r1, hs)" and
    d: "emit_data (sections g) hs r1 = Inr r2" and
    r: "emit_relocs (sections g) hs r2 = Inr r3" and
    s: "emit_symbols (symbols g)
       (g\<lparr>header := (header g)\<lparr>PointerToSymbolTable := int (length r3)\<rparr>\<rparr>) r3 = Inr (g2, r4)" and
    g': "g' = g2\<lparr>header := (header g2)\<lparr>TimeDateStamp := now\<rparr>\<rparr>"
    by (rule COFFGenerator_emit_Inr)
  note l3 = emit_loops_length[OF h d r]
  have fr: "sections g2 = sections g \<and> symbols g2 = symbols g \<and>
      header g2 = (header g)\<lparr>PointerToSymbolTable := int (length r3)\<rparr> \<and> is64bit g2 = is64bit g"
    using emit_symbols_frame[OF s] by simp
  have st: "strings g2 = strings g" if "short_names g"
  proof -
    from that have "list_all (\<lambda>s. length (sym_name s) \<le> 8) (symbols g)"
      by (simp add: short_names_def)
    from emit_symbols_short[OF this s] show ?thesis by simp
  qed
  have gr: "length (strings g) < length (strings g2)" if "\<not> short_names g"
    using that emit_symbols_strings_length[OF s] by (simp add: short_names_def)
  show ?thesis
    using fr st gr by (simp add: g' l3)
qed

section \<open>The size of the emitted file\<close>

text \<open>
  C7 (amended): whenever \<^verbatim>\<open>emit()\<close> returns, the length of the returned buffer is
  20 (file header) + 40 for each section + the data length of every section +
  10 for each relocation + 18 for each symbol + the length of the string table as the
  call leaves it, with no padding bytes. That table is the table before the call (given
  it holds its 4-byte prefix) plus, for every symbol whose name has more than 8
  characters, the encoded name and one zero byte; so when every symbol name has at most 8
  characters the last term is the length of the string table before the call.
\<close>

theorem emit_length:
  assumes "COFFGenerator_emit g now = Inr (g', out)"
  shows "length out =
      20 + 40 * length (sections g) + data_total (sections g) +
      10 * reloc_total (sections g) + 18 * length (symbols g) + length (strings g') \<and>
     (4 \<le> length (strings g) \<longrightarrow>
        length (strings g') = length (strings g) + long_names_total (symbols g)) \<and>
     (short_names g \<longrightarrow>
        length out =
          20 + 40 * length (sections g) + data_total (sections g) +
          10 * reloc_total (sections g) + 18 * length (symbols g) + length (strings g))"
proof -
  from assms obtain r1 hs r2 r3 g2 r4 where
    h: "emit_headers (sections g) (replicate 20 0) Map.empty = Inr (r1, hs)" and
    d: "emit_data (sections g) hs r1 = Inr r2" and
    r: "emit_relocs (sections g) hs r2 = Inr r3" and
    s: "emit_symbols (symbols g)
       (g\<lparr>header := (header g)\<lparr>PointerToSymbolTable := int (length r3)\<rparr>\<rparr>) r3 = Inr (g2, r4)" and
    g': "g' = g2\<lparr>header := (header g2)\<lparr>TimeDateStamp := now\<rparr>\<rparr>" and
    out: "out = slice_assign (r4 @ strings g2) 0 20 (header_record (header g2) now)"
    by (rule COFFGenerator_emit_Inr)
  note l3 = emit_loops_length[OF h d r]
  have l4: "length r4 = length r3 + 18 * length (symbols g)"
    using emit_symbols_length[OF s] by simp
  have "20 \<le> length (r4 @ strings g2)"
    by (simp add: l4 l3)
  then have "length out = length (r4 @ strings g2)"
    unfolding out by (simp add: length_slice_assign)
  then have len: "length out =
      20 + 40 * length (sections g) + data_total (sections g) +
      10 * reloc_total (sections g) + 18 * length (symbols g) + length (strings g')"
    by (simp add: l4 l3 g')
  have ex: "length (strings g') = length (strings g) + long_names_total (symbols g)"
    if "4 \<le> length (strings g)"
    using emit_symbols_strings_exact[OF s] that by (simp add: g')
  have sh: "strings g' = strings g" if "short_names g"
  proof -
    from that have "list_all (\<lambda>s. length (sym_name s) \<le> 8) (symbols g)"
      by (simp add: short_names_def)
    from emit_symbols_short[OF this s] show ?thesis by (simp add: g')
  qed
  from len ex sh show ?thesis
    by simp
qed

section \<open>Two emissions in a row\<close>

text \<open>
  C2 (amended): for a generator all of whose symbol names have at most 8 characters, if
  \<^verbatim>\<open>emit()\<close> returns, then a second \<^verbatim>\<open>emit()\<close> right after it (at a clock value that
  fits 32 bits) returns too, and the two buffers have the same length and agree
  everywhere outside bytes 4..8, the timestamp field of the file header.
\<close>

theorem emit_twice_short_names:
  assumes "short_names g" and "COFFGenerator_emit g t1 = Inr (g1, out1)"
    and "0 \<le> t2" and "t2 < 4294967296"
  shows "\<exists>g2 out2. COFFGenerator_emit g1 t2 = Inr (g2, out2) \<and>
     length out2 = length out1 \<and> take 4 out2 = take 4 out1 \<and> drop 8 out2 = drop 8 out1"
proof -
  from assms(2) obtain r1 hs r2 r3 g2a r4 where
    h: "emit_headers (sections g) (replicate 20 0) Map.empty = Inr (r1, hs)" and
    d: "emit_data (sections g) hs r1 = Inr r2" and
    r: "emit_relocs (sections g) hs r2 = Inr r3" and
    s: "emit_symbols (symbols g)
       (g\<lparr>header := (header g)\<lparr>PointerToSymbolTable := int (length r3)\<rparr>\<rparr>) r3 = Inr (g2a, r4)" and
    ok: "header_fields_ok (header g2a) t1" and
    g1: "g1 = g2a\<lparr>header := (header g2a)\<lparr>TimeDateStamp := t1\<rparr>\<rparr>" and
    out1: "out1 = slice_assign (r4 @ strings g2a) 0 20 (header_record (header g2a) t1)"
    by (rule COFFGenerator_emit_Inr)
  define ga where "ga = g\<lparr>header := (header g)\<lparr>PointerToSymbolTable := int (length r3)\<rparr>\<rparr>"
  define gb where "gb = g1\<lparr>header := (header g1)\<lparr>PointerToSymbolTable := int (length r3)\<rparr>\<rparr>"
  from assms(1) have short: "list_all (\<lambda>s. length (sym_name s) \<le> 8) (symbols g)"
    by (simp add: short_names_def)
  from emit_symbols_short[OF short s, of gb] have g2a: "g2a = ga"
    and sb: "emit_symbols (symbols g) gb r3 = Inr (gb, r4)"
    by (simp_all add: ga_def)
  have g1': "sections g1 = sections g" "symbols g1 = symbols g" "strings g1 = strings g"
    by (simp_all add: g1 g2a ga_def)
  have hb: "header gb = (header ga)\<lparr>TimeDateStamp := t1\<rparr>"
    by (simp add: gb_def g1 g2a ga_def)
  have okb: "header_fields_ok (header gb) t2"
    using ok assms(3,4) by (simp add: hb g2a header_fields_ok_def)
  define out2 where "out2 = slice_assign (r4 @ strings g) 0 20 (header_record (header ga) t2)"
  have sg: "symbols gb = symbols g" "strings gb = strings g"
    by (simp_all add: gb_def g1')
  have hr: "header_record (header gb) t2 = header_record (header ga) t2"
    by (simp add: hb)
  have e2: "COFFGenerator_emit g1 t2 = Inr (gb\<lparr>header := (header gb)\<lparr>TimeDateStamp := t2\<rparr>\<rparr>, out2)"
  proof -
    have "COFFGenerator_emit g1 t2 =
        (case emit_symbols (symbols gb) gb r3 of
           Inl e \<Rightarrow> Inl e
         | Inr (g2, r4) \<Rightarrow>
             (case COFFHeader_pack (header g2) t2 of
                Inl e \<Rightarrow> Inl e
              | Inr (h', hb) \<Rightarrow> Inr (g2\<lparr>header := h'\<rparr>, slice_assign (r4 @ strings g2) 0 20 hb)))"
      by (simp only: COFFGenerator_emit_def g1' h d r sum.case prod.case Let_def gb_def)
    also have "\<dots> = Inr (gb\<lparr>header := (header gb)\<lparr>TimeDateStamp := t2\<rparr>\<rparr>, out2)"
      by (simp only: sg sb sum.case prod.case COFFHeader_pack_eq okb if_True hr out2_def)
    finally show ?thesis .
  qed
  have l4: "length r4 = length r3 + 18 * length (symbols g)"
    using emit_symbols_length[OF s] by simp
  have len: "20 \<le> length (r4 @ strings g)"
    using emit_loops_length[OF h d r] l4 by simp
  have o1: "out1 = header_record (header ga) t1 @ drop 20 (r4 @ strings g)"
    using slice_assign_header[OF len] by (simp add: out1 g2a ga_def)
  have o2: "out2 = header_record (header ga) t2 @ drop 20 (r4 @ strings g)"
    using slice_assign_header[OF len] by (simp add: out2_def)
  have "length out2 = length out1"
    by (simp add: o1 o2)
  moreover have "take 4 out2 = take 4 out1"
    by (simp add: o1 o2 header_record_take4)
  moreover have "drop 8 out2 = drop 8 out1"
    by (simp add: o1 o2 header_record_drop8)
  ultimately show ?thesis
    using e2 by blast
qed

section \<open>A fresh generator, at any clock value\<close>

lemma emit_init:
  assumes "0 \<le> now" and "now < 4294967296"
  shows "COFFGenerator_emit (COFFGenerator_init True t0) now =
     Inr (\<lparr>is64bit = True, symbols = [], sections = [], strings = [4, 0, 0, 0],
           header = \<lparr>Machine = 0x8664, TimeDateStamp = now, NumberOfSections = 0,
                     PointerToSymbolTable = 20, NumberOfSymbols = 0,
                     SizeOfOptionalHeader = 0, Characteristics = 0\<rparr>\<rparr>,
          [0x64, 0x86, 0, 0] @ le_bytes 4 (nat now) @
          [20, 0, 0, 0, 0, 0, 0, 0, 0, 0, 0, 0] @ [4, 0, 0, 0])"
  using assms
  by (simp add: COFFGenerator_emit_def COFFGenerator_init_def COFFHeader_init_def
     COFFHeader_pack_eq header_fields_ok_def header_record_def slice_assign_def
     le_bytes_numeral_mod replicate_numeral)

text \<open>
  C5 (amended): on a freshly constructed generator with \<^verbatim>\<open>is64bit=True\<close> and nothing
  added, \<^verbatim>\<open>emit()\<close> at a clock value that fits 32 bits returns exactly 24 bytes: the
  20-byte file header (machine \<^verbatim>\<open>0x8664\<close>, no sections, the clock value as timestamp,
  symbol-table pointer 20, no symbols, the other fields zero) followed by the 4-byte
  string table \<^verbatim>\<open>04 00 00 00\<close>.
\<close>

theorem emit_fresh_generator:
  assumes "0 \<le> now" and "now < 4294967296"
  shows "emit_output (COFFGenerator_init True t0) now =
     Some ([0x64, 0x86, 0, 0] @ le_bytes 4 (nat now) @
           [20, 0, 0, 0, 0, 0, 0, 0, 0, 0, 0, 0] @ [4, 0, 0, 0])"
  by (simp add: emit_output_def emit_init[OF assms])

theorem emit_fresh_generator_witness:
  "emit_output (COFFGenerator_init True 0) 1 =
     Some [0x64, 0x86, 0, 0, 1, 0, 0, 0, 20, 0, 0, 0, 0, 0, 0, 0, 0, 0, 0, 0, 4, 0, 0, 0]"
  using emit_fresh_generator[of 1 0] by (simp add: le_bytes_numeral_mod)

theorem emit_fresh_generator_counterexample:
  "map_option length (emit_output (COFFGenerator_init True 0) 1) = Some 24"
  using emit_init[of 1 0] by (simp add: emit_output_def)

section \<open>The section header record\<close>

lemma name_field_length [simp]: "length (take 8 (enc @ replicate (8 - length enc) (0::byte))) = 8"
  by simp

text \<open>
  C9 (amended): for a section whose fields fit their widths and whose name can be
  encoded, \<^verbatim>\<open>pack()\<close> returns a record of exactly 40 bytes: the name (bytes 0..8, the
  encoding of the first 8 characters cut or zero-padded to 8 bytes), the data length
  (8..12), the virtual address (12..16), the data length again (16..20), zero data and
  relocation pointers (20..24, 24..28), two zero 16-bit fields (28..30, 30..32), the
  relocation count (32..34), two zero padding bytes (34..36) and the characteristics
  (36..40).
\<close>

theorem COFFSection_pack_layout:
  assumes "section_fields_ok s" and "encode (take 8 (sec_name s)) = Inr enc"
  shows "\<exists>b. COFFSection_pack s = Inr b \<and> length b = 40 \<and>
     slice b 0 8 = take 8 (enc @ replicate (8 - length enc) 0) \<and>
     slice b 8 12 = le_bytes 4 (length (sec_data s)) \<and>
     slice b 12 16 = le_bytes 4 (nat (sec_VirtualAddress s)) \<and>
     slice b 16 20 = le_bytes 4 (length (sec_data s)) \<and>
     slice b 20 24 = replicate 4 0 \<and>
     slice b 24 28 = replicate 4 0 \<and>
     slice b 28 30 = replicate 2 0 \<and>
     slice b 30 32 = replicate 2 0 \<and>
     slice b 32 34 = le_bytes 2 (length (sec_relocations s)) \<and>
     slice b 34 36 = replicate 2 0 \<and>
     slice b 36 40 = le_bytes 4 (nat (sec_characteristics s))"
proof -
  have pk: "COFFSection_pack s = Inr (section_record s enc)"
    using assms by (simp add: COFFSection_pack_eq)
  have "slice (section_record s enc) 0 8 = take 8 (enc @ replicate (8 - length enc) 0)"
    and "slice (section_record s enc) 8 12 = le_bytes 4 (length (sec_data s))"
    and "slice (section_record s enc) 12 16 = le_bytes 4 (nat (sec_VirtualAddress s))"
    and "slice (section_record s enc) 16 20 = le_bytes 4 (length (sec_data s))"
    and "slice (section_record s enc) 20 24 = replicate 4 0"
    and "slice (section_record s enc) 24 28 = replicate 4 0"
    and "slice (section_record s enc) 28 30 = replicate 2 0"
    and "slice (section_record s enc) 30 32 = replicate 2 0"
    and "slice (section_record s enc) 32 34 = le_bytes 2 (length (sec_relocations s))"
    and "slice (section_record s enc) 34 36 = replicate 2 0"
    and "slice (section_record s enc) 36 40 = le_bytes 4 (nat (sec_characteristics s))"
    by (simp_all add: slice_def section_record_def le_bytes_zero)
  with pk show ?thesis by simp
qed

section \<open>The name field of a symbol record\<close>

lemma symbol_record_name:
  "length nb = 8 \<Longrightarrow> slice (symbol_record s nb) 0 8 = nb"
  by (simp add: slice_def symbol_record_def)

lemma symbol_record_name_halves:
  "slice (symbol_record s (le_bytes 4 0 @ le_bytes 4 n)) 0 4 = replicate 4 0 \<and>
   slice (symbol_record s (le_bytes 4 0 @ le_bytes 4 n)) 4 8 = le_bytes 4 n"
  by (simp add: slice_def symbol_record_def le_bytes_zero)

text \<open>
  C10: when \<^verbatim>\<open>pack()\<close> of a symbol returns, the name could be encoded, and the form
  of the name field is chosen by the number of characters. With at most 8 characters the
  field (bytes 0..8) is the encoding, zero-padded, and cut to 8 bytes when the encoding
  is longer, and the generator (hence its string table) is unchanged. With more than 8
  characters the field is four zero bytes followed by the length the string table had
  before the call, and the name and a zero byte are appended to the table.
\<close>

theorem COFFSymbol_pack_name_form:
  assumes "COFFSymbol_pack g s = Inr (g', b)"
  shows "\<exists>enc. encode (sym_name s) = Inr enc \<and>
     (if length (sym_name s) \<le> 8
      then slice b 0 8 = take 8 (enc @ replicate (8 - length enc) 0) \<and> g' = g
      else slice b 0 4 = replicate 4 0 \<and> slice b 4 8 = le_bytes 4 (length (strings g)) \<and>
           g' = g\<lparr>strings := slice_assign (strings g @ enc @ [0]) 0 4
                      (le_bytes 4 (length (strings g) + length enc + 1))\<rparr>)"
proof (cases "length (sym_name s) \<le> 8")
  case True
  with assms show ?thesis
    by (auto simp: COFFSymbol_pack_short symbol_record_name split: sum.splits if_splits)
next
  case False
  with assms show ?thesis
    by (auto simp: COFFSymbol_pack_long COFFGenerator_string_eq symbol_record_name_halves
        split: sum.splits if_splits)
qed

section \<open>When a long name reaches the string table\<close>

text \<open>
  C4 (amended): \<^verbatim>\<open>symbol()\<close> appends a symbol holding the name, value, section, type and
  storage class it was given (no offset) and increments the symbol count; it leaves the
  string table as it is, whatever the name. A name of more than 8 characters is appended
  to the string table (which holds at least its 4-byte prefix), with a terminating zero
  byte, by each call of the symbol's \<^verbatim>\<open>pack()\<close> that returns, so during \<^verbatim>\<open>emit()\<close>; the
  offset written into the record (bytes 4..8) is the length the table had just before
  that call.
\<close>

theorem long_name_registration:
  assumes "COFFGenerator_symbol g name v sec ty st = (g1, s)"
  shows "s = \<lparr>sym_name = name, sym_value = v, sym_section = sec, sym_type = ty,
              sym_storage = st\<rparr> \<and>
     g1 = g\<lparr>symbols := symbols g @ [s],
            header := (header g)\<lparr>NumberOfSymbols := NumberOfSymbols (header g) + 1\<rparr>\<rparr> \<and>
     strings g1 = strings g \<and>
     (8 < length name \<longrightarrow> 4 \<le> length (strings gp) \<longrightarrow> COFFSymbol_pack gp s = Inr (gp', b) \<longrightarrow>
        (\<exists>enc. encode name = Inr enc \<and>
           strings gp' = le_bytes 4 (length (strings gp) + length enc + 1) @
                         drop 4 (strings gp) @ enc @ [0] \<and>
           slice b 4 8 = le_bytes 4 (length (strings gp))))"
proof -
  from assms have s: "s = \<lparr>sym_name = name, sym_value = v, sym_section = sec, sym_type = ty,
              sym_storage = st\<rparr>"
    and g1: "g1 = g\<lparr>symbols := symbols g @ [s],
            header := (header g)\<lparr>NumberOfSymbols := NumberOfSymbols (header g) + 1\<rparr>\<rparr>"
    by (auto simp: COFFGenerator_symbol_def Let_def)
  from g1 have st: "strings g1 = strings g" by simp
  from s have n: "sym_name s = name" by simp
  have pk: "\<exists>enc. encode name = Inr enc \<and>
           strings gp' = le_bytes 4 (length (strings gp) + length enc + 1) @
                         drop 4 (strings gp) @ enc @ [0] \<and>
           slice b 4 8 = le_bytes 4 (length (strings gp))"
    if l: "8 < length name" and f: "4 \<le> length (strings gp)"
      and p: "COFFSymbol_pack gp s = Inr (gp', b)"
  proof -
    from l n have long: "\<not> length (sym_name s) \<le> 8" by simp
    from p long obtain enc where enc: "encode name = Inr enc"
      and gp': "strings gp' = slice_assign (strings gp @ enc @ [0]) 0 4
                   (le_bytes 4 (length (strings gp) + length enc + 1))"
      and b: "b = symbol_record s (le_bytes 4 0 @ le_bytes 4 (length (strings gp)))"
      by (auto simp: COFFSymbol_pack_long COFFGenerator_string_eq n split: sum.splits if_splits)
    have "strings gp' = le_bytes 4 (length (strings gp) + length enc + 1) @
                        drop 4 (strings gp) @ enc @ [0]"
      using f by (simp add: gp' slice_assign_inside)
    with enc b symbol_record_name_halves show ?thesis
      by simp
  qed
  from s g1 st pk show ?thesis
    by blast
qed

section \<open>The examples, evaluated\<close>

lemma data_total_hello: "data_total (sections hello_generator) = 2"
  by (simp add: data_total_def hello_generator_def hello_text_def)

lemma reloc_total_hello: "reloc_total (sections hello_generator) = 1"
  by (simp add: reloc_total_def hello_generator_def hello_text_def)

lemma short_names_hello: "short_names hello_generator"
  by (simp add: short_names_def hello_generator_def str_of_main)

lemma emit_hello:
  "COFFGenerator_emit hello_generator 1 =
     Inr (hello_generator\<lparr>header := (header hello_generator)
             \<lparr>TimeDateStamp := 1, PointerToSymbolTable := 72\<rparr>\<rparr>,
         [100, 134, 1, 0, 1, 0, 0, 0, 72, 0, 0, 0, 1, 0, 0, 0, 0, 0, 0, 0,
          46, 116, 101, 120, 116, 0, 0, 0, 2, 0, 0, 0, 0, 0, 0, 0, 2, 0, 0, 0,
          60, 0, 0, 0, 62, 0, 0, 0, 0, 0, 0, 0, 1, 0, 0, 0, 32, 0, 0, 96,
          85, 195,
          1, 0, 0, 0, 0, 0, 0, 0, 4, 0,
          109, 97, 105, 110, 0, 0, 0, 0, 0, 0, 0, 0, 1, 0, 32, 0, 2, 0,
          4, 0, 0, 0])"
  by (simp add: hello_generator_def hello_text_def str_of_text str_of_main eval_simps)

lemma emit_long:
  "COFFGenerator_emit long_generator 1 =
     Inr (long_generator
            \<lparr>strings := [14, 0, 0, 0, 108, 111, 110, 103, 95, 110, 97, 109, 101, 0],
             header := (header long_generator)
               \<lparr>TimeDateStamp := 1, PointerToSymbolTable := 20\<rparr>\<rparr>,
         [100, 134, 0, 0, 1, 0, 0, 0, 20, 0, 0, 0, 1, 0, 0, 0, 0, 0, 0, 0,
          0, 0, 0, 0, 4, 0, 0, 0, 0, 0, 0, 0, 0, 0, 32, 0, 2, 0,
          14, 0, 0, 0, 108, 111, 110, 103, 95, 110, 97, 109, 101, 0])"
  by (simp add: long_generator_def long_symbol_def str_of_long_name eval_simps)

lemma emit_long_again:
  "COFFGenerator_emit
     (long_generator
        \<lparr>strings := [14, 0, 0, 0, 108, 111, 110, 103, 95, 110, 97, 109, 101, 0],
         header := (header long_generator)
           \<lparr>TimeDateStamp := 1, PointerToSymbolTable := 20\<rparr>\<rparr>) 1 =
     Inr (long_generator
            \<lparr>strings := [24, 0, 0, 0, 108, 111, 110, 103, 95, 110, 97, 109, 101, 0,
                          108, 111, 110, 103, 95, 110, 97, 109, 101, 0],
             header := (header long_generator)
               \<lparr>TimeDateStamp := 1, PointerToSymbolTable := 20\<rparr>\<rparr>,
         [100, 134, 0, 0, 1, 0, 0, 0, 20, 0, 0, 0, 1, 0, 0, 0, 0, 0, 0, 0,
          0, 0, 0, 0, 14, 0, 0, 0, 0, 0, 0, 0, 0, 0, 32, 0, 2, 0,
          24, 0, 0, 0, 108, 111, 110, 103, 95, 110, 97, 109, 101, 0,
          108, 111, 110, 103, 95, 110, 97, 109, 101, 0])"
  by (simp add: long_generator_def long_symbol_def str_of_long_name eval_simps)

lemma emit_dup:
  "COFFGenerator_emit dup_generator 1 =
     Inr (dup_generator\<lparr>header := (header dup_generator)
             \<lparr>TimeDateStamp := 1, PointerToSymbolTable := 102\<rparr>\<rparr>,
         [100, 134, 2, 0, 1, 0, 0, 0, 102, 0, 0, 0, 0, 0, 0, 0, 0, 0, 0, 0,
          46, 116, 101, 120, 116, 0, 0, 0, 1, 0, 0, 0, 0, 0, 0, 0, 1, 0, 0, 0,
          0, 0, 0, 0, 0, 0, 0, 0, 0, 0, 0, 0, 0, 0, 0, 0, 32, 0, 0, 96,
          46, 116, 101, 120, 116, 0, 0, 0, 1, 0, 0, 0, 0, 0, 0, 0, 1, 0, 0, 0,
          101, 0, 0, 0, 0, 0, 0, 0, 0, 0, 0, 0, 0, 0, 0, 0, 32, 0, 0, 96,
          144, 195,
          4, 0, 0, 0])"
  by (simp add: dup_generator_def str_of_text eval_simps)

lemma pack_hello_text:
  "COFFSection_pack hello_text =
     Inr [46, 116, 101, 120, 116, 0, 0, 0, 2, 0, 0, 0, 0, 0, 0, 0, 2, 0, 0, 0,
          0, 0, 0, 0, 0, 0, 0, 0, 0, 0, 0, 0, 1, 0, 0, 0, 32, 0, 0, 96]"
  by (simp add: hello_text_def str_of_text eval_simps)

lemma pack_accent_symbol:
  "COFFSymbol_pack (COFFGenerator_init True 0) accent_symbol =
     Inr (COFFGenerator_init True 0,
          [195, 169, 195, 169, 195, 169, 195, 169, 0, 0, 0, 0, 1, 0, 32, 0, 2, 0])"
  by (simp add: accent_symbol_def eval_simps)

lemma encode_accent:
  "encode (sym_name accent_symbol) =
     Inr [195, 169, 195, 169, 195, 169, 195, 169, 195, 169, 195, 169, 195, 169, 195, 169]"
  by (simp add: accent_symbol_def utf8_char_def)

lemma pack_long_symbol:
  "COFFSymbol_pack long_generator long_symbol =
     Inr (long_generator
            \<lparr>strings := [14, 0, 0, 0, 108, 111, 110, 103, 95, 110, 97, 109, 101, 0]\<rparr>,
          [0, 0, 0, 0, 4, 0, 0, 0, 0, 0, 0, 0, 0, 0, 32, 0, 2, 0])"
  by (simp add: long_generator_def long_symbol_def str_of_long_name eval_simps)

lemma symbol_long:
  "COFFGenerator_symbol (COFFGenerator_init True 0) (str_of ''long_name'') 0 0 0x20 2 =
     (long_generator, long_symbol)"
  by (simp add: long_generator_def long_symbol_def run_simps)

lemma long_names_total_long: "long_names_total (symbols long_generator) = 10"
  by (simp add: long_names_total_def long_name_bytes_def long_generator_def long_symbol_def
      str_of_long_name utf8_char_def)

section \<open>Two sections of one name\<close>

text \<open>
  C6: the generator with two sections both named \<^verbatim>\<open>.text\<close>, holding the bytes \<^verbatim>\<open>90\<close> and
  \<^verbatim>\<open>C3\<close>. In the emitted file the first section's header is at offset 20 and its data at
  offset 100, but its data pointer (bytes 40..44) is 0; the second section's header is
  at offset 60, its data at offset 101 and its data pointer (bytes 80..84) is 101.
\<close>

theorem emit_duplicate_section_names:
  "run (COFFGenerator_init True 0) dup_ops = Inr dup_generator \<and>
   emit_output dup_generator 1 =
     Some [100, 134, 2, 0, 1, 0, 0, 0, 102, 0, 0, 0, 0, 0, 0, 0, 0, 0, 0, 0,
          46, 116, 101, 120, 116, 0, 0, 0, 1, 0, 0, 0, 0, 0, 0, 0, 1, 0, 0, 0,
          0, 0, 0, 0, 0, 0, 0, 0, 0, 0, 0, 0, 0, 0, 0, 0, 32, 0, 0, 96,
          46, 116, 101, 120, 116, 0, 0, 0, 1, 0, 0, 0, 0, 0, 0, 0, 1, 0, 0, 0,
          101, 0, 0, 0, 0, 0, 0, 0, 0, 0, 0, 0, 0, 0, 0, 0, 32, 0, 0, 96,
          144, 195,
          4, 0, 0, 0] \<and>
   emit_field dup_generator 1 40 44 = Some [0, 0, 0, 0] \<and>
   emit_field dup_generator 1 100 101 = Some [0x90] \<and>
   emit_field dup_generator 1 80 84 = Some [101, 0, 0, 0] \<and>
   emit_field dup_generator 1 101 102 = Some [0xC3]"
  by (simp add: run_dup emit_output_def emit_field_def emit_dup slice_def)

section \<open>A relocation table past 64 KiB\<close>

lemma encode_text: "encode (take 8 (str_of ''.text'')) = Inr [46, 116, 101, 120, 116]"
  by (simp add: str_of_text utf8_char_def)

text \<open>
  C1: the generator with one section \<^verbatim>\<open>.text\<close> of 65476 data bytes and one relocation.
  When the third loop of \<^verbatim>\<open>emit()\<close> reaches the section the buffer holds
  20 + 40 + 65476 = 65536 bytes, and packing that length with format \<^verbatim>\<open>H\<close> raises
  \<^verbatim>\<open>struct.error\<close>, at every clock value.
\<close>

theorem emit_relocation_pointer_overflow:
  "run (COFFGenerator_init True 0) big_ops = Inr big_generator \<and>
   COFFGenerator_emit big_generator now = Inl StructError"
proof -
  define s where "s = \<lparr>sec_name = str_of ''.text'',
          sec_relocations = [\<lparr>rel_VirtualAddress = 0, rel_SymbolTableIndex = 0, rel_Type = 4\<rparr>],
          sec_VirtualAddress = 0, sec_characteristics = 0x60000020,
          sec_data = replicate 65476 (0x90 :: byte)\<rparr>"
  define rec where "rec = section_record s [46, 116, 101, 120, 116]"
  define r1 where "r1 = replicate 20 (0::byte) @ rec"
  define r2 where "r2 = slice_assign r1 40 44 (le_bytes 4 60) @ sec_data s"
  have secs: "sections big_generator = [s]"
    by (simp add: big_generator_def s_def)
  have name: "sec_name s = str_of ''.text''" and rel: "sec_relocations s \<noteq> []"
    and data: "length (sec_data s) = 65476"
    by (simp_all add: s_def)
  have ok: "section_fields_ok s"
    by (simp add: section_fields_ok_def s_def)
  have pk: "COFFSection_pack s = Inr rec"
    by (simp add: COFFSection_pack_eq name encode_text ok rec_def)
  have l1: "length r1 = 60"
    by (simp add: r1_def rec_def)
  have h: "emit_headers [s] (replicate 20 0) Map.empty = Inr (r1, [sec_name s \<mapsto> 20])"
    by (simp add: pk r1_def)
  have d: "emit_data [s] [sec_name s \<mapsto> 20] r1 = Inr r2"
    by (simp add: pack_I l1 r2_def)
  have l2: "length r2 = 65536"
    by (simp add: r2_def length_slice_assign l1 data)
  have r: "emit_relocs [s] [sec_name s \<mapsto> 20] r2 = Inl StructError"
    using rel by (simp add: pack_H l2)
  have "COFFGenerator_emit big_generator now = Inl StructError"
    by (simp only: COFFGenerator_emit_def secs h d r sum.case prod.case)
  with run_big show ?thesis by simp
qed

section \<open>The statements at the examples\<close>

theorem emit_length_counterexample:
  "map_option length (emit_output long_generator 1) = Some 52 \<and>
   20 + 40 * length (sections long_generator) + data_total (sections long_generator) +
   10 * reloc_total (sections long_generator) + 18 * length (symbols long_generator) +
   length (strings long_generator) = 42"
  by (simp add: emit_output_def emit_long)
     (simp add: long_generator_def data_total_def reloc_total_def)

theorem emit_length_witness:
  "short_names hello_generator \<and>
   map_option length (emit_output hello_generator 1) =
     Some (20 + 40 * 1 + 2 + 10 * 1 + 18 * 1 + 4) \<and>
   4 \<le> length (strings long_generator) \<and>
   long_names_total (symbols long_generator) = 10 \<and>
   map_option length (emit_output long_generator 1) = Some (20 + 18 * 1 + (4 + 10))"
proof -
  obtain g' out where e: "COFFGenerator_emit hello_generator 1 = Inr (g', out)"
    using emit_hello by simp
  from emit_length[OF e] short_names_hello
  have "length out = 20 + 40 * length (sections hello_generator) +
      data_total (sections hello_generator) + 10 * reloc_total (sections hello_generator) +
      18 * length (symbols hello_generator) + length (strings hello_generator)"
    by blast
  then have "length out = 94"
    by (simp add: data_total_hello reloc_total_hello) (simp add: hello_generator_def)
  then have a: "map_option length (emit_output hello_generator 1) =
     Some (20 + 40 * 1 + 2 + 10 * 1 + 18 * 1 + 4)"
    by (simp add: emit_output_def e)
  obtain h' out' where e': "COFFGenerator_emit long_generator 1 = Inr (h', out')"
    using emit_long by simp
  have f: "4 \<le> length (strings long_generator)"
    by (simp add: long_generator_def)
  from emit_length[OF e'] f
  have "length out' = 20 + 40 * length (sections long_generator) +
      data_total (sections long_generator) + 10 * reloc_total (sections long_generator) +
      18 * length (symbols long_generator) + length (strings h')"
    and "length (strings h') = length (strings long_generator) +
      long_names_total (symbols long_generator)"
    by blast+
  then have "length out' = 52"
    by (simp add: long_names_total_long) (simp add: long_generator_def data_total_def reloc_total_def)
  then have b: "map_option length (emit_output long_generator 1) = Some (20 + 18 * 1 + (4 + 10))"
    by (simp add: emit_output_def e')
  from a b f short_names_hello long_names_total_long show ?thesis
    by simp
qed

theorem run_strings_prefix_witness:
  "run (COFFGenerator_init True 0)
     [OpSymbol (str_of ''long_name'') 0 0 0x20 2, OpEmit 1, OpString (str_of ''abc'')] =
   Inr (long_generator
          \<lparr>strings := [18, 0, 0, 0, 108, 111, 110, 103, 95, 110, 97, 109, 101, 0, 97, 98, 99, 0],
           header := (header long_generator)
             \<lparr>TimeDateStamp := 1, PointerToSymbolTable := 20\<rparr>\<rparr>) \<and>
   strings_prefix_ok (long_generator
          \<lparr>strings := [18, 0, 0, 0, 108, 111, 110, 103, 95, 110, 97, 109, 101, 0, 97, 98, 99, 0],
           header := (header long_generator)
             \<lparr>TimeDateStamp := 1, PointerToSymbolTable := 20\<rparr>\<rparr>)"
proof -
  have r: "run (COFFGenerator_init True 0)
     [OpSymbol (str_of ''long_name'') 0 0 0x20 2, OpEmit 1, OpString (str_of ''abc'')] =
   Inr (long_generator
          \<lparr>strings := [18, 0, 0, 0, 108, 111, 110, 103, 95, 110, 97, 109, 101, 0, 97, 98, 99, 0],
           header := (header long_generator)
             \<lparr>TimeDateStamp := 1, PointerToSymbolTable := 20\<rparr>\<rparr>)"
    by (simp add: symbol_long emit_long str_of_abc COFFGenerator_string_eq utf8_char_def
        slice_assign_def le_bytes_numeral_mod)
  from run_strings_prefix[OF r] r show ?thesis by simp
qed

theorem emit_frame_counterexample:
  "strings long_generator = [4, 0, 0, 0] \<and>
   map_option strings (emit_state long_generator 1) =
     Some [14, 0, 0, 0, 108, 111, 110, 103, 95, 110, 97, 109, 101, 0]"
  by (simp add: emit_state_def emit_long) (simp add: long_generator_def)

theorem emit_frame_witness:
  "short_names hello_generator \<and>
   emit_state hello_generator 1 =
     Some (hello_generator\<lparr>header := (header hello_generator)
             \<lparr>TimeDateStamp := 1, PointerToSymbolTable := 72\<rparr>\<rparr>) \<and>
   \<not> short_names long_generator \<and>
   map_option (length \<circ> strings) (emit_state long_generator 1) = Some 14 \<and>
   length (strings long_generator) = 4"
proof -
  obtain g' out where e: "COFFGenerator_emit hello_generator 1 = Inr (g', out)"
    using emit_hello by simp
  from emit_frame[OF e] short_names_hello
  have "sections g' = sections hello_generator" "symbols g' = symbols hello_generator"
    "is64bit g' = is64bit hello_generator" "strings g' = strings hello_generator"
    "header g' = (header hello_generator)\<lparr>TimeDateStamp := 1, PointerToSymbolTable := 72\<rparr>"
    by (simp_all add: data_total_hello reloc_total_hello) (simp add: hello_generator_def)
  then have "g' = hello_generator\<lparr>header := (header hello_generator)
             \<lparr>TimeDateStamp := 1, PointerToSymbolTable := 72\<rparr>\<rparr>"
    by (intro COFFGenerator.equality) simp_all
  with e have a: "emit_state hello_generator 1 =
     Some (hello_generator\<lparr>header := (header hello_generator)
             \<lparr>TimeDateStamp := 1, PointerToSymbolTable := 72\<rparr>\<rparr>)"
    by (simp add: emit_state_def)
  have n: "\<not> short_names long_generator"
    by (simp add: short_names_def long_generator_def long_symbol_def str_of_long_name)
  have l: "length (strings long_generator) = 4"
    by (simp add: long_generator_def)
  from emit_frame[OF emit_long] n
  have "map_option (length \<circ> strings) (emit_state long_generator 1) = Some 14"
    by (simp add: emit_state_def emit_long)
  with a n l short_names_hello show ?thesis by simp
qed

theorem emit_twice_counterexample:
  "map_option (map_prod length length) (emit_twice long_generator 1 1) = Some (52, 62)"
  by (simp add: emit_twice_def emit_long emit_long_again)

theorem emit_twice_short_names_witness:
  "short_names hello_generator \<and>
   (\<exists>out1 out2. emit_twice hello_generator 1 2 = Some (out1, out2) \<and>
      length out2 = length out1 \<and> take 4 out2 = take 4 out1 \<and> drop 8 out2 = drop 8 out1)"
proof -
  obtain g1 out1 where e: "COFFGenerator_emit hello_generator 1 = Inr (g1, out1)"
    using emit_hello by simp
  from emit_twice_short_names[OF short_names_hello e, of 2]
  obtain g2 out2 where "COFFGenerator_emit g1 2 = Inr (g2, out2)"
    and "length out2 = length out1" "take 4 out2 = take 4 out1" "drop 8 out2 = drop 8 out1"
    by auto
  with e short_names_hello show ?thesis
    by (simp add: emit_twice_def)
qed

theorem long_name_registration_counterexample:
  "8 < length (str_of ''long_name'') \<and>
   strings (COFFGenerator_init True 0) = [4, 0, 0, 0] \<and>
   strings (fst (COFFGenerator_symbol (COFFGenerator_init True 0)
                   (str_of ''long_name'') 0 0 0x20 2)) = [4, 0, 0, 0]"
  by (simp add: str_of_long_name COFFGenerator_symbol_def COFFGenerator_init_def Let_def)

theorem long_name_registration_witness:
  "COFFGenerator_symbol (COFFGenerator_init True 0) (str_of ''long_name'') 0 0 0x20 2 =
     (long_generator, long_symbol) \<and>
   strings (COFFGenerator_init True 0) = [4, 0, 0, 0] \<and>
   strings long_generator = [4, 0, 0, 0] \<and>
   8 < length (str_of ''long_name'') \<and>
   COFFSymbol_pack long_generator long_symbol =
     Inr (long_generator
            \<lparr>strings := [14, 0, 0, 0, 108, 111, 110, 103, 95, 110, 97, 109, 101, 0]\<rparr>,
          [0, 0, 0, 0, 4, 0, 0, 0, 0, 0, 0, 0, 0, 0, 32, 0, 2, 0]) \<and>
   slice [0, 0, 0, 0, 4, 0, 0, 0, 0, 0, 0, 0, 0, 0, 32, 0, 2, 0] 4 8 = [4, 0, 0, 0::byte]"
proof -
  have l: "8 < length (str_of ''long_name'')"
    by (simp add: str_of_long_name)
  have f: "4 \<le> length (strings long_generator)" and s: "strings long_generator = [4, 0, 0, 0]"
    and i: "strings (COFFGenerator_init True 0) = [4, 0, 0, 0]"
    by (simp_all add: long_generator_def COFFGenerator_init_def)
  from long_name_registration[OF symbol_long] l f pack_long_symbol
  have "strings long_generator = strings (COFFGenerator_init True 0)"
    and "slice [0, 0, 0, 0, 4, 0, 0, 0, 0, 0, 0, 0, 0, 0, 32, 0, 2, 0] 4 8 =
      le_bytes 4 (length (strings long_generator))"
    by blast+
  then show ?thesis
    by (simp add: symbol_long pack_long_symbol s i l le_bytes_numeral_mod)
qed

theorem COFFSection_pack_counterexample:
  "COFFSection_pack hello_text =
     Inr [46, 116, 101, 120, 116, 0, 0, 0, 2, 0, 0, 0, 0, 0, 0, 0, 2, 0, 0, 0,
          0, 0, 0, 0, 0, 0, 0, 0, 0, 0, 0, 0, 1, 0, 0, 0, 32, 0, 0, 96] \<and>
   le_bytes 2 (length (sec_relocations hello_text)) = [1, 0] \<and>
   slice [46, 116, 101, 120, 116, 0, 0, 0, 2, 0, 0, 0, 0, 0, 0, 0, 2, 0, 0, 0,
          0, 0, 0, 0, 0, 0, 0, 0, 0, 0, 0, 0, 1, 0, 0, 0, 32, 0, 0, 96] 30 32 = [0, 0::byte]"
  by (simp add: pack_hello_text) (simp add: hello_text_def slice_def le_bytes_numeral_mod)

theorem COFFSection_pack_layout_witness:
  "section_fields_ok hello_text \<and>
   encode (take 8 (sec_name hello_text)) = Inr [46, 116, 101, 120, 116] \<and>
   (\<exists>b. COFFSection_pack hello_text = Inr b \<and> length b = 40 \<and>
      slice b 0 8 = [46, 116, 101, 120, 116, 0, 0, 0] \<and>
      slice b 32 34 = [1, 0] \<and> slice b 34 36 = [0, 0] \<and> slice b 36 40 = [32, 0, 0, 96])"
proof -
  have ok: "section_fields_ok hello_text"
    by (simp add: section_fields_ok_def hello_text_def)
  have enc: "encode (take 8 (sec_name hello_text)) = Inr [46, 116, 101, 120, 116]"
    by (simp add: hello_text_def str_of_text utf8_char_def)
  from COFFSection_pack_layout[OF ok enc] obtain b where
    "COFFSection_pack hello_text = Inr b" "length b = 40"
    "slice b 0 8 = take 8 ([46, 116, 101, 120, 116] @ replicate (8 - length [46, 116, 101, 120, 116 :: byte]) 0)"
    "slice b 32 34 = le_bytes 2 (length (sec_relocations hello_text))"
    "slice b 34 36 = replicate 2 0"
    "slice b 36 40 = le_bytes 4 (nat (sec_characteristics hello_text))"
    by blast
  then have "COFFSection_pack hello_text = Inr b \<and> length b = 40 \<and>
      slice b 0 8 = [46, 116, 101, 120, 116, 0, 0, 0] \<and>
      slice b 32 34 = [1, 0] \<and> slice b 34 36 = [0, 0] \<and> slice b 36 40 = [32, 0, 0, 96]"
    by (simp add: hello_text_def le_bytes_numeral_mod replicate_numeral)
  with ok enc show ?thesis by blast
qed

theorem COFFSymbol_pack_name_form_witness:
  "length (sym_name accent_symbol) = 8 \<and>
   encode (sym_name accent_symbol) =
     Inr [195, 169, 195, 169, 195, 169, 195, 169, 195, 169, 195, 169, 195, 169, 195, 169] \<and>
   COFFSymbol_pack (COFFGenerator_init True 0) accent_symbol =
     Inr (COFFGenerator_init True 0,
          [195, 169, 195, 169, 195, 169, 195, 169, 0, 0, 0, 0, 1, 0, 32, 0, 2, 0]) \<and>
   slice [195, 169, 195, 169, 195, 169, 195, 169, 0, 0, 0, 0, 1, 0, 32, 0, 2, 0] 0 8 =
     [195, 169, 195, 169, 195, 169, 195, 169 :: byte] \<and>
   length (sym_name long_symbol) = 9 \<and>
   COFFSymbol_pack long_generator long_symbol =
     Inr (long_generator
            \<lparr>strings := [14, 0, 0, 0, 108, 111, 110, 103, 95, 110, 97, 109, 101, 0]\<rparr>,
          [0, 0, 0, 0, 4, 0, 0, 0, 0, 0, 0, 0, 0, 0, 32, 0, 2, 0])"
proof -
  have n: "length (sym_name accent_symbol) = 8"
    by (simp add: accent_symbol_def)
  from COFFSymbol_pack_name_form[OF pack_accent_symbol] n encode_accent
  have a: "slice [195, 169, 195, 169, 195, 169, 195, 169, 0, 0, 0, 0, 1, 0, 32, 0, 2, 0] 0 8 =
     [195, 169, 195, 169, 195, 169, 195, 169 :: byte]"
    by simp
  have m: "length (sym_name long_symbol) = 9"
    by (simp add: long_symbol_def str_of_long_name)
  from COFFSymbol_pack_name_form[OF pack_long_symbol] m
  have "slice [0, 0, 0, 0, 4, 0, 0, 0, 0, 0, 0, 0, 0, 0, 32, 0, 2, 0] 0 4 = replicate 4 (0::byte)"
    by auto
  with n a m encode_accent pack_accent_symbol pack_long_symbol show ?thesis
    by simp
qed

end
